theory Spec2Isabelle
  imports Main "HOL-Library.Word"
begin

unbundle bit_operations_syntax

section \<open>Bytes, strings and exceptions\<close>

text \<open>
  A \<^verbatim>\<open>std::vector<uint8_t>\<close> is a list of 8-bit words. A \<^verbatim>\<open>std::string\<close> is a HOL string
  (one \<^typ>\<open>char\<close> per byte); \<open>string_bytes\<close> and \<open>bytes_string\<close> are the copies
  between the two that \<^verbatim>\<open>buffer.insert(.., str.begin(), str.end())\<close> and the iterator-range
  constructor of \<^verbatim>\<open>std::string\<close> perform. Sizes (\<^verbatim>\<open>size_t\<close>) are natural numbers; the
  casts to \<^verbatim>\<open>uint32_t\<close> and \<^verbatim>\<open>uint64_t\<close> are written out with \<open>of_nat\<close>, which wraps.
\<close>

type_synonym byte = "8 word"
type_synonym bytes = "byte list"

definition string_bytes :: "string \<Rightarrow> bytes" where
  "string_bytes s = map (\<lambda>c. of_nat (of_char c)) s"

definition bytes_string :: "bytes \<Rightarrow> string" where
  "bytes_string bs = map (\<lambda>b. char_of (unat b)) bs"

text \<open>
  The exception hierarchy of \<^verbatim>\<open>exceptions.h\<close>. Every subclass of \<^verbatim>\<open>NetCopyException\<close>
  prefixes its message in the constructor; \<^verbatim>\<open>std::runtime_error\<close> and
  \<^verbatim>\<open>std::invalid_argument\<close> keep the message as given. \<open>what\<close> returns a \<^verbatim>\<open>const char*\<close>,
  so a caller that builds a string from it gets the text up to its first NUL character
  (\<open>c_str\<close>).
\<close>

datatype exn =
    NetworkException string
  | CryptoException string
  | FileException string
  | ConfigException string
  | ProtocolException string
  | runtime_error string
  | invalid_argument string

definition c_str :: "string \<Rightarrow> string" where
  "c_str s = takeWhile (\<lambda>c. c \<noteq> CHR 0x00) s"

fun what :: "exn \<Rightarrow> string" where
  "what (NetworkException m) = c_str (''Network error: '' @ m)"
| "what (CryptoException m) = c_str (''Crypto error: '' @ m)"
| "what (FileException m) = c_str (''File error: '' @ m)"
| "what (ConfigException m) = c_str (''Config error: '' @ m)"
| "what (ProtocolException m) = c_str (''Protocol error: '' @ m)"
| "what (runtime_error m) = c_str m"
| "what (invalid_argument m) = c_str m"

text \<open>
  \<open>andThen r f\<close> is sequencing under exceptions: the exception of \<open>r\<close> propagates,
  otherwise \<open>f\<close> continues with the value.
\<close>

definition andThen :: "exn + 'a \<Rightarrow> ('a \<Rightarrow> exn + 'b) \<Rightarrow> exn + 'b" where
  "andThen r f = (case r of Inl e \<Rightarrow> Inl e | Inr v \<Rightarrow> f v)"

section \<open>Wire codec (protocol/message.cpp, anonymous namespace)\<close>

definition write_uint32 :: "bytes \<Rightarrow> 32 word \<Rightarrow> bytes" where
  "write_uint32 buffer v =
     buffer @ [ucast (v AND 0xFF), ucast (drop_bit 8 v AND 0xFF),
               ucast (drop_bit 16 v AND 0xFF), ucast (drop_bit 24 v AND 0xFF)]"

definition write_uint64 :: "bytes \<Rightarrow> 64 word \<Rightarrow> bytes" where
  "write_uint64 buffer v = buffer @ map (\<lambda>i. ucast (drop_bit (i * 8) v AND 0xFF)) [0..<8]"

definition write_string :: "bytes \<Rightarrow> string \<Rightarrow> bytes" where
  "write_string buffer str = write_uint32 buffer (of_nat (length str)) @ string_bytes str"

definition write_bytes :: "bytes \<Rightarrow> bytes \<Rightarrow> bytes" where
  "write_bytes buffer d = write_uint32 buffer (of_nat (length d)) @ d"

text \<open>
  The readers take the buffer and the cursor and return the value with the advanced cursor,
  or the \<^verbatim>\<open>ProtocolException\<close> they throw.
\<close>

definition read_uint32 :: "bytes \<Rightarrow> nat \<Rightarrow> exn + (32 word \<times> nat)" where
  "read_uint32 buffer offset =
     (if offset + 4 > length buffer then Inl (ProtocolException ''Buffer underflow reading uint32'')
      else Inr (ucast (buffer ! offset)
                  OR push_bit 8 (ucast (buffer ! (offset + 1)))
                  OR push_bit 16 (ucast (buffer ! (offset + 2)))
                  OR push_bit 24 (ucast (buffer ! (offset + 3))),
                offset + 4))"

definition read_uint64 :: "bytes \<Rightarrow> nat \<Rightarrow> exn + (64 word \<times> nat)" where
  "read_uint64 buffer offset =
     (if offset + 8 > length buffer then Inl (ProtocolException ''Buffer underflow reading uint64'')
      else Inr (fold (\<lambda>i v. v OR push_bit (i * 8) (ucast (buffer ! (offset + i)))) [0..<8] 0,
                offset + 8))"

definition read_string :: "bytes \<Rightarrow> nat \<Rightarrow> exn + (string \<times> nat)" where
  "read_string buffer offset =
     andThen (read_uint32 buffer offset) (\<lambda>(len, offset').
       if offset' + unat len > length buffer
       then Inl (ProtocolException ''Buffer underflow reading string'')
       else Inr (bytes_string (take (unat len) (drop offset' buffer)), offset' + unat len))"

definition read_bytes :: "bytes \<Rightarrow> nat \<Rightarrow> exn + (bytes \<times> nat)" where
  "read_bytes buffer offset =
     andThen (read_uint32 buffer offset) (\<lambda>(len, offset').
       if offset' + unat len > length buffer
       then Inl (ProtocolException ''Buffer underflow reading bytes'')
       else Inr (take (unat len) (drop offset' buffer), offset' + unat len))"

text \<open>A \<^verbatim>\<open>bool\<close> is written as \<^verbatim>\<open>b ? 1 : 0\<close> and read as \<^verbatim>\<open>byte != 0\<close>.\<close>

definition bool_byte :: "bool \<Rightarrow> byte" where
  "bool_byte b = (if b then 1 else 0)"

section \<open>Message model (protocol/message.h)\<close>

type_synonym MessageType = "32 word"

definition HANDSHAKE_REQUEST :: MessageType where "HANDSHAKE_REQUEST = 1"
definition HANDSHAKE_RESPONSE :: MessageType where "HANDSHAKE_RESPONSE = 2"
definition FILE_REQUEST :: MessageType where "FILE_REQUEST = 3"
definition FILE_RESPONSE :: MessageType where "FILE_RESPONSE = 4"
definition FILE_DATA :: MessageType where "FILE_DATA = 5"
definition FILE_ACK :: MessageType where "FILE_ACK = 6"
definition RESUME_REQUEST :: MessageType where "RESUME_REQUEST = 7"
definition RESUME_RESPONSE :: MessageType where "RESUME_RESPONSE = 8"
definition ERROR_MESSAGE :: MessageType where "ERROR_MESSAGE = 9"

text \<open>
  \<^verbatim>\<open>enum class SecurityLevel : uint8_t\<close>: the deserializers cast any byte to it, so the model
  keeps the byte.
\<close>

type_synonym SecurityLevel = byte

definition HIGH :: SecurityLevel where "HIGH = 0"
definition FAST :: SecurityLevel where "FAST = 1"
definition AES :: SecurityLevel where "AES = 2"
definition AES_256_GCM :: SecurityLevel where "AES_256_GCM = 3"

record MessageHeader =
  type :: MessageType
  payload_length :: "32 word"
  sequence_number :: "32 word"
  reserved :: "32 word"

definition MessageHeader_SIZE :: nat where
  "MessageHeader_SIZE = 16"

record HandshakeRequest =
  client_version :: string
  client_nonce :: bytes
  security_level :: SecurityLevel

record HandshakeResponse =
  server_version :: string
  server_nonce :: bytes
  authentication_required :: bool
  accepted_security_level :: SecurityLevel

record FileRequest =
  source_path :: string
  destination_path :: string
  recursive :: bool
  resume_offset :: "64 word"

record FileResponse =
  success :: bool
  error_message :: string
  file_size :: "64 word"
  resume_offset :: "64 word"

record FileData =
  offset :: "64 word"
  data :: bytes
  is_last_chunk :: bool
  compressed :: bool

record FileAck =
  bytes_received :: "64 word"
  success :: bool
  error_message :: string

record ErrorMessage =
  error_code :: "32 word"
  error_description :: string

text \<open>
  The class hierarchy under \<^verbatim>\<open>Message\<close> is a tagged union of the seven concrete classes; a
  message object is its header together with the members of its class.
\<close>

datatype Payload =
    HandshakeRequestMsg HandshakeRequest
  | HandshakeResponseMsg HandshakeResponse
  | FileRequestMsg FileRequest
  | FileResponseMsg FileResponse
  | FileDataMsg FileData
  | FileAckMsg FileAck
  | ErrorMessageMsg ErrorMessage

record Message =
  header :: MessageHeader
  body :: Payload

definition get_type :: "Message \<Rightarrow> MessageType" where
  "get_type m = type (header m)"

text \<open>
  The member \<^verbatim>\<open>header_\<close> is \<open>header\<close> here (a name cannot end in an underscore); the
  same holds for every other member the source writes with a trailing underscore. The
  constructors: \<^verbatim>\<open>Message(type, sequence_number = 0)\<close> sets \<open>type\<close>, \<open>sequence_number\<close> and
  \<open>reserved\<close> and leaves \<open>payload_length\<close> unassigned (the model writes 0; \<open>serialize\<close>
  overwrites it and nothing else reads it). Each concrete class passes its own kind.
\<close>

definition Message_header :: "MessageType \<Rightarrow> MessageHeader" where
  "Message_header t = \<lparr>type = t, payload_length = 0, sequence_number = 0, reserved = 0\<rparr>"

fun kind_of :: "Payload \<Rightarrow> MessageType" where
  "kind_of (HandshakeRequestMsg _) = HANDSHAKE_REQUEST"
| "kind_of (HandshakeResponseMsg _) = HANDSHAKE_RESPONSE"
| "kind_of (FileRequestMsg _) = FILE_REQUEST"
| "kind_of (FileResponseMsg _) = FILE_RESPONSE"
| "kind_of (FileDataMsg _) = FILE_DATA"
| "kind_of (FileAckMsg _) = FILE_ACK"
| "kind_of (ErrorMessageMsg _) = ERROR_MESSAGE"

definition new_Message :: "Payload \<Rightarrow> Message" where
  "new_Message p = \<lparr>header = Message_header (kind_of p), body = p\<rparr>"

subsection \<open>Header\<close>

definition MessageHeader_serialize :: "MessageHeader \<Rightarrow> bytes" where
  "MessageHeader_serialize h =
     write_uint32 (write_uint32 (write_uint32 (write_uint32 [] (type h)) (payload_length h))
                     (sequence_number h)) (reserved h)"

definition MessageHeader_deserialize :: "bytes \<Rightarrow> exn + MessageHeader" where
  "MessageHeader_deserialize d =
     (if length d < MessageHeader_SIZE then Inl (ProtocolException ''Invalid header size'')
      else andThen (read_uint32 d 0) (\<lambda>(t, o1).
           andThen (read_uint32 d o1) (\<lambda>(pl, o2).
           andThen (read_uint32 d o2) (\<lambda>(sq, o3).
           andThen (read_uint32 d o3) (\<lambda>(rs, o4).
             Inr \<lparr>type = t, payload_length = pl, sequence_number = sq, reserved = rs\<rparr>)))))"

subsection \<open>Payloads\<close>

definition HandshakeRequest_serialize_payload :: "HandshakeRequest \<Rightarrow> bytes" where
  "HandshakeRequest_serialize_payload m =
     write_bytes (write_string [] (client_version m)) (client_nonce m) @ [security_level m]"

text \<open>
  \<open>deserialize_payload\<close> is a member function that assigns to the members of \<open>this\<close>: the
  model takes the object as it was and returns it updated. A member the function does not
  assign keeps the value it had.
\<close>

definition HandshakeRequest_deserialize_payload ::
    "HandshakeRequest \<Rightarrow> bytes \<Rightarrow> exn + HandshakeRequest" where
  "HandshakeRequest_deserialize_payload this d =
     andThen (read_string d 0) (\<lambda>(v, o1).
     andThen (read_bytes d o1) (\<lambda>(n, o2).
       Inr (this\<lparr>client_version := v, client_nonce := n,
                 security_level := (if o2 < length d then d ! o2 else security_level this)\<rparr>)))"

definition HandshakeResponse_serialize_payload :: "HandshakeResponse \<Rightarrow> bytes" where
  "HandshakeResponse_serialize_payload m =
     write_bytes (write_string [] (server_version m)) (server_nonce m)
       @ [bool_byte (authentication_required m)] @ [accepted_security_level m]"

definition HandshakeResponse_deserialize_payload ::
    "HandshakeResponse \<Rightarrow> bytes \<Rightarrow> exn + HandshakeResponse" where
  "HandshakeResponse_deserialize_payload this d =
     andThen (read_string d 0) (\<lambda>(v, o1).
     andThen (read_bytes d o1) (\<lambda>(n, o2).
       if o2 \<ge> length d
       then Inl (ProtocolException ''Buffer underflow reading authentication flag'')
       else Inr (this\<lparr>server_version := v, server_nonce := n,
                      authentication_required := (d ! o2 \<noteq> 0),
                      accepted_security_level :=
                        (if o2 + 1 < length d then d ! (o2 + 1)
                         else accepted_security_level this)\<rparr>)))"

definition FileRequest_serialize_payload :: "FileRequest \<Rightarrow> bytes" where
  "FileRequest_serialize_payload m =
     write_uint64 (write_string (write_string [] (source_path m)) (destination_path m)
                     @ [bool_byte (recursive m)])
       (FileRequest.resume_offset m)"

definition FileRequest_deserialize_payload :: "FileRequest \<Rightarrow> bytes \<Rightarrow> exn + FileRequest" where
  "FileRequest_deserialize_payload this d =
     andThen (read_string d 0) (\<lambda>(s, o1).
     andThen (read_string d o1) (\<lambda>(dst, o2).
       if o2 \<ge> length d then Inl (ProtocolException ''Buffer underflow reading recursive flag'')
       else andThen (read_uint64 d (o2 + 1)) (\<lambda>(r, o3).
         Inr (this\<lparr>source_path := s, destination_path := dst, recursive := (d ! o2 \<noteq> 0),
                   FileRequest.resume_offset := r\<rparr>))))"

definition FileResponse_serialize_payload :: "FileResponse \<Rightarrow> bytes" where
  "FileResponse_serialize_payload m =
     write_uint64 (write_uint64 (write_string [bool_byte (FileResponse.success m)]
                                   (FileResponse.error_message m))
                     (file_size m))
       (FileResponse.resume_offset m)"

definition FileResponse_deserialize_payload :: "FileResponse \<Rightarrow> bytes \<Rightarrow> exn + FileResponse" where
  "FileResponse_deserialize_payload this d =
     (if 0 \<ge> length d then Inl (ProtocolException ''Buffer underflow reading success flag'')
      else andThen (read_string d 1) (\<lambda>(msg, o1).
           andThen (read_uint64 d o1) (\<lambda>(fsz, o2).
           andThen (read_uint64 d o2) (\<lambda>(r, o3).
             Inr (this\<lparr>FileResponse.success := (d ! 0 \<noteq> 0), FileResponse.error_message := msg,
                       file_size := fsz, FileResponse.resume_offset := r\<rparr>)))))"

definition FileData_serialize_payload :: "FileData \<Rightarrow> bytes" where
  "FileData_serialize_payload m =
     write_bytes (write_uint64 [] (offset m)) (data m) @ [bool_byte (is_last_chunk m)]"

definition FileData_deserialize_payload :: "FileData \<Rightarrow> bytes \<Rightarrow> exn + FileData" where
  "FileData_deserialize_payload this data_buffer =
     andThen (read_uint64 data_buffer 0) (\<lambda>(off, p1).
     andThen (read_bytes data_buffer p1) (\<lambda>(d, p2).
       if p2 \<ge> length data_buffer
       then Inl (ProtocolException ''Buffer underflow reading last chunk flag'')
       else Inr (this\<lparr>offset := off, data := d, is_last_chunk := (data_buffer ! p2 \<noteq> 0)\<rparr>)))"

definition FileAck_serialize_payload :: "FileAck \<Rightarrow> bytes" where
  "FileAck_serialize_payload m =
     write_string (write_uint64 [] (bytes_received m) @ [bool_byte (FileAck.success m)])
       (FileAck.error_message m)"

definition FileAck_deserialize_payload :: "FileAck \<Rightarrow> bytes \<Rightarrow> exn + FileAck" where
  "FileAck_deserialize_payload this d =
     andThen (read_uint64 d 0) (\<lambda>(br, o1).
       if o1 \<ge> length d then Inl (ProtocolException ''Buffer underflow reading success flag'')
       else andThen (read_string d (o1 + 1)) (\<lambda>(msg, o2).
         Inr (this\<lparr>bytes_received := br, FileAck.success := (d ! o1 \<noteq> 0),
                   FileAck.error_message := msg\<rparr>)))"

definition ErrorMessage_serialize_payload :: "ErrorMessage \<Rightarrow> bytes" where
  "ErrorMessage_serialize_payload m =
     write_string (write_uint32 [] (error_code m)) (error_description m)"

definition ErrorMessage_deserialize_payload :: "ErrorMessage \<Rightarrow> bytes \<Rightarrow> exn + ErrorMessage" where
  "ErrorMessage_deserialize_payload this d =
     andThen (read_uint32 d 0) (\<lambda>(c, o1).
     andThen (read_string d o1) (\<lambda>(s, o2).
       Inr (this\<lparr>error_code := c, error_description := s\<rparr>)))"

subsection \<open>Dispatch\<close>

fun serialize_payload :: "Payload \<Rightarrow> bytes" where
  "serialize_payload (HandshakeRequestMsg m) = HandshakeRequest_serialize_payload m"
| "serialize_payload (HandshakeResponseMsg m) = HandshakeResponse_serialize_payload m"
| "serialize_payload (FileRequestMsg m) = FileRequest_serialize_payload m"
| "serialize_payload (FileResponseMsg m) = FileResponse_serialize_payload m"
| "serialize_payload (FileDataMsg m) = FileData_serialize_payload m"
| "serialize_payload (FileAckMsg m) = FileAck_serialize_payload m"
| "serialize_payload (ErrorMessageMsg m) = ErrorMessage_serialize_payload m"

definition Message_serialize :: "Message \<Rightarrow> bytes" where
  "Message_serialize m =
     (let payload = serialize_payload (body m);
          hdr = (header m)\<lparr>payload_length := of_nat (length payload)\<rparr>
      in MessageHeader_serialize hdr @ payload)"

text \<open>
  \<^verbatim>\<open>std::make_unique<T>()\<close> runs the user-provided default constructor of the class, which
  assigns only the members that have a default member initializer: the two security
  levels (\<open>HIGH\<close>) and the containers (empty). The scalar members without an initializer
  start indeterminate. \<open>uninit\<close> is the environment's content for them: \<open>uninit_bool\<close> for
  a \<^verbatim>\<open>bool\<close>, \<open>uninit_u32\<close> and \<open>uninit_u64\<close> for the integers.
\<close>

record uninit =
  uninit_bool :: bool
  uninit_u32 :: "32 word"
  uninit_u64 :: "64 word"

definition new_HandshakeRequest :: HandshakeRequest where
  "new_HandshakeRequest = \<lparr>client_version = [], client_nonce = [], security_level = HIGH\<rparr>"

definition new_HandshakeResponse :: "uninit \<Rightarrow> HandshakeResponse" where
  "new_HandshakeResponse u =
     \<lparr>server_version = [], server_nonce = [], authentication_required = uninit_bool u,
      accepted_security_level = HIGH\<rparr>"

definition new_FileRequest :: "uninit \<Rightarrow> FileRequest" where
  "new_FileRequest u =
     \<lparr>source_path = [], destination_path = [], recursive = uninit_bool u,
      resume_offset = uninit_u64 u\<rparr>"

definition new_FileResponse :: "uninit \<Rightarrow> FileResponse" where
  "new_FileResponse u =
     \<lparr>FileResponse.success = uninit_bool u, FileResponse.error_message = [],
      file_size = uninit_u64 u, resume_offset = uninit_u64 u\<rparr>"

definition new_FileData :: "uninit \<Rightarrow> FileData" where
  "new_FileData u =
     \<lparr>offset = uninit_u64 u, data = [], is_last_chunk = uninit_bool u,
      compressed = uninit_bool u\<rparr>"

definition new_FileAck :: "uninit \<Rightarrow> FileAck" where
  "new_FileAck u =
     \<lparr>bytes_received = uninit_u64 u, success = uninit_bool u, error_message = []\<rparr>"

definition new_ErrorMessage :: "uninit \<Rightarrow> ErrorMessage" where
  "new_ErrorMessage u = \<lparr>error_code = uninit_u32 u, error_description = []\<rparr>"

definition lift_payload :: "('a \<Rightarrow> Payload) \<Rightarrow> exn + 'a \<Rightarrow> exn + Payload" where
  "lift_payload c r = andThen r (\<lambda>v. Inr (c v))"

definition Message_deserialize :: "uninit \<Rightarrow> bytes \<Rightarrow> exn + Message" where
  "Message_deserialize u d =
     (if length d < MessageHeader_SIZE then Inl (ProtocolException ''Message too short'')
      else andThen (MessageHeader_deserialize d) (\<lambda>hdr.
        if length d < MessageHeader_SIZE + unat (payload_length hdr)
        then Inl (ProtocolException ''Incomplete message'')
        else
          let payload = take (unat (payload_length hdr)) (drop MessageHeader_SIZE d);
              r = (if type hdr = HANDSHAKE_REQUEST then
                     lift_payload HandshakeRequestMsg
                       (HandshakeRequest_deserialize_payload new_HandshakeRequest payload)
                   else if type hdr = HANDSHAKE_RESPONSE then
                     lift_payload HandshakeResponseMsg
                       (HandshakeResponse_deserialize_payload (new_HandshakeResponse u) payload)
                   else if type hdr = FILE_REQUEST then
                     lift_payload FileRequestMsg
                       (FileRequest_deserialize_payload (new_FileRequest u) payload)
                   else if type hdr = FILE_RESPONSE then
                     lift_payload FileResponseMsg
                       (FileResponse_deserialize_payload (new_FileResponse u) payload)
                   else if type hdr = FILE_DATA then
                     lift_payload FileDataMsg
                       (FileData_deserialize_payload (new_FileData u) payload)
                   else if type hdr = FILE_ACK then
                     lift_payload FileAckMsg
                       (FileAck_deserialize_payload (new_FileAck u) payload)
                   else if type hdr = ERROR_MESSAGE then
                     lift_payload ErrorMessageMsg
                       (ErrorMessage_deserialize_payload (new_ErrorMessage u) payload)
                   else Inl (ProtocolException ''Unknown message type''))
          in andThen r (\<lambda>p. Inr \<lparr>header = hdr, body = p\<rparr>)))"

subsection \<open>Valid instances\<close>

text \<open>
  A message can be put on the wire faithfully when every length prefix fits its 32 bits:
  the length of each string and byte sequence, and the length of the whole payload (the
  header's \<open>payload_length\<close>). Its header carries the kind of its class, as the constructors
  set it.
\<close>

fun valid_payload :: "Payload \<Rightarrow> bool" where
  "valid_payload (HandshakeRequestMsg m) =
     (length (client_version m) < 2 ^ 32 \<and> length (client_nonce m) < 2 ^ 32)"
| "valid_payload (HandshakeResponseMsg m) =
     (length (server_version m) < 2 ^ 32 \<and> length (server_nonce m) < 2 ^ 32)"
| "valid_payload (FileRequestMsg m) =
     (length (source_path m) < 2 ^ 32 \<and> length (destination_path m) < 2 ^ 32)"
| "valid_payload (FileResponseMsg m) = (length (FileResponse.error_message m) < 2 ^ 32)"
| "valid_payload (FileDataMsg m) = (length (data m) < 2 ^ 32)"
| "valid_payload (FileAckMsg m) = (length (FileAck.error_message m) < 2 ^ 32)"
| "valid_payload (ErrorMessageMsg m) = (length (error_description m) < 2 ^ 32)"

definition valid_message :: "Message \<Rightarrow> bool" where
  "valid_message m \<longleftrightarrow>
     type (header m) = kind_of (body m) \<and> valid_payload (body m) \<and>
     length (serialize_payload (body m)) < 2 ^ 32"

text \<open>
  What the receiver holds after decoding a payload that was encoded from \<open>p\<close>: every member
  that travels is the sender's; \<open>compressed\<close> does not travel and is what the fresh
  object held.
\<close>

fun decoded_payload :: "uninit \<Rightarrow> Payload \<Rightarrow> Payload" where
  "decoded_payload u (FileDataMsg m) = FileDataMsg (m\<lparr>compressed := uninit_bool u\<rparr>)"
| "decoded_payload u p = p"

section \<open>ChaCha20-Poly1305 (crypto/chacha20_poly1305.cpp)\<close>

text \<open>
  Keys, nonces, IVs and tags are \<^verbatim>\<open>std::array<uint8_t, N>\<close>: byte lists of length \<open>N\<close>.
  \<open>load32\<close> reads four bytes as a little-endian word (\<^verbatim>\<open>Poly1305::load32\<close>; the \<^verbatim>\<open>memcpy\<close>
  into \<^verbatim>\<open>uint32_t\<close> arrays does the same on the little-endian hosts the code is built
  for), \<open>store32\<close> writes them back.
\<close>

definition load32 :: "bytes \<Rightarrow> nat \<Rightarrow> 32 word" where
  "load32 d i = ucast (d ! i) OR push_bit 8 (ucast (d ! (i + 1)))
                OR push_bit 16 (ucast (d ! (i + 2))) OR push_bit 24 (ucast (d ! (i + 3)))"

definition store32 :: "32 word \<Rightarrow> bytes" where
  "store32 v = [ucast (v AND 0xff), ucast (drop_bit 8 v AND 0xff),
                ucast (drop_bit 16 v AND 0xff), ucast (drop_bit 24 v AND 0xff)]"

definition store64 :: "64 word \<Rightarrow> bytes" where
  "store64 v = map (\<lambda>i. ucast (drop_bit (i * 8) v)) [0..<8]"

definition xor_bytes :: "bytes \<Rightarrow> bytes \<Rightarrow> bytes" where
  "xor_bytes xs ks = map (\<lambda>(x, k). x XOR k) (zip xs ks)"

subsection \<open>ChaCha20\<close>

definition rotl :: "32 word \<Rightarrow> nat \<Rightarrow> 32 word" where
  "rotl v shift = push_bit shift v OR drop_bit (32 - shift) v"

definition quarter_round :: "nat \<Rightarrow> nat \<Rightarrow> nat \<Rightarrow> nat \<Rightarrow> 32 word list \<Rightarrow> 32 word list" where
  "quarter_round i0 i1 i2 i3 w =
     (let a = w ! i0; b = w ! i1; c = w ! i2; d = w ! i3;
          a = a + b; d = d XOR a; d = rotl d 16;
          c = c + d; b = b XOR c; b = rotl b 12;
          a = a + b; d = d XOR a; d = rotl d 8;
          c = c + d; b = b XOR c; b = rotl b 7
      in w[i0 := a, i1 := b, i2 := c, i3 := d])"

definition double_round :: "32 word list \<Rightarrow> 32 word list" where
  "double_round w =
     quarter_round 3 4 9 14 (quarter_round 2 7 8 13 (quarter_round 1 6 11 12
       (quarter_round 0 5 10 15 (quarter_round 3 7 11 15 (quarter_round 2 6 10 14
         (quarter_round 1 5 9 13 (quarter_round 0 4 8 12 w)))))))"

text \<open>The constructor \<^verbatim>\<open>ChaCha20(key, nonce, counter)\<close>: the sixteen words of the state.\<close>

definition ChaCha20 :: "bytes \<Rightarrow> bytes \<Rightarrow> 32 word \<Rightarrow> 32 word list" where
  "ChaCha20 k nonce counter =
     [0x61707865, 0x3320646e, 0x79622d32, 0x6b206574]
     @ map (\<lambda>i. load32 k (4 * i)) [0..<8]
     @ [counter]
     @ map (\<lambda>i. load32 nonce (4 * i)) [0..<3]"

definition generate_keystream :: "32 word list \<Rightarrow> bytes" where
  "generate_keystream st =
     (let working_state = (double_round ^^ 10) st;
          working_state = map (\<lambda>(w, s). w + s) (zip working_state st)
      in concat (map store32 working_state))"

text \<open>
  \<^verbatim>\<open>ChaCha20::encrypt(data, length)\<close>: one keystream block per 64 bytes, the block counter
  \<^verbatim>\<open>state_[12]\<close> incremented after each. The object is a temporary, so only the bytes are
  returned.
\<close>

function ChaCha20_encrypt :: "32 word list \<Rightarrow> bytes \<Rightarrow> bytes" where
  "ChaCha20_encrypt st d =
     (if d = [] then []
      else xor_bytes (take 64 d) (generate_keystream st)
           @ ChaCha20_encrypt (st[12 := st ! 12 + 1]) (drop 64 d))"
  by pat_completeness auto
termination
  by (relation "measure (\<lambda>(st, d). length d)") auto

declare ChaCha20_encrypt.simps [simp del]

subsection \<open>Poly1305\<close>

text \<open>The members \<^verbatim>\<open>r_\<close>, \<^verbatim>\<open>s_\<close> and \<^verbatim>\<open>h_\<close> are \<open>poly_r\<close>, \<open>poly_s\<close> and \<open>poly_h\<close>.\<close>

record Poly1305 =
  poly_r :: "32 word list"
  poly_s :: "32 word list"
  poly_h :: "32 word list"

definition new_Poly1305 :: "bytes \<Rightarrow> Poly1305" where
  "new_Poly1305 k =
     \<lparr>poly_r = [load32 k 0 AND 0x3ffffff,
            drop_bit 2 (load32 k 3) AND 0x3ffff03,
            drop_bit 4 (load32 k 6) AND 0x3ffc0ff,
            drop_bit 6 (load32 k 9) AND 0x3f03fff,
            drop_bit 8 (load32 k 12) AND 0x00fffff],
      poly_s = [load32 k 16, load32 k 20, load32 k 24, load32 k 28],
      poly_h = [0, 0, 0, 0, 0]\<rparr>"

text \<open>
  The carry loops: a 64-bit \<open>carry\<close> runs through the limbs, each limb keeps the low 32
  bits. \<open>carry_chain\<close> takes the 64-bit summands of the limbs in order and returns the limbs.
\<close>

fun carry_chain :: "64 word \<Rightarrow> 64 word list \<Rightarrow> 32 word list" where
  "carry_chain carry [] = []"
| "carry_chain carry (x # xs) =
     (let carry = carry + x in ucast (carry AND 0xffffffff) # carry_chain (drop_bit 32 carry) xs)"

definition multiply_by_r :: "Poly1305 \<Rightarrow> Poly1305" where
  "multiply_by_r p =
     (let d = map (\<lambda>i. fold (\<lambda>j acc.
                  let acc = acc + ucast (poly_h p ! j) * ucast (poly_r p ! ((i + 5 - j) mod 5))
                  in if i < j then acc + ucast (poly_h p ! j) * ucast (poly_r p ! (i + 5 - j)) * 5
                     else acc) [0..<5] (0 :: 64 word)) [0..<5]
      in p\<lparr>poly_h := carry_chain 0 d\<rparr>)"

definition Poly1305_block :: "Poly1305 \<Rightarrow> bytes \<Rightarrow> Poly1305" where
  "Poly1305_block p chunk =
     (let chunk_size = length chunk;
          c = fold (\<lambda>i c. c[i div 4 := c ! (i div 4) OR push_bit (8 * (i mod 4)) (ucast (chunk ! i))])
                [0..<chunk_size] [0, 0, 0, 0, 0 :: 32 word];
          c = c[chunk_size div 4 := c ! (chunk_size div 4) OR push_bit (8 * (chunk_size mod 4)) 1];
          p = p\<lparr>poly_h := carry_chain 0 (map (\<lambda>(hi, ci). ucast hi + ucast ci) (zip (poly_h p) c))\<rparr>
      in multiply_by_r p)"

function Poly1305_update :: "Poly1305 \<Rightarrow> bytes \<Rightarrow> Poly1305" where
  "Poly1305_update p d =
     (if d = [] then p else Poly1305_update (Poly1305_block p (take 16 d)) (drop 16 d))"
  by pat_completeness auto
termination
  by (relation "measure (\<lambda>(p, d). length d)") auto

declare Poly1305_update.simps [simp del]

definition Poly1305_finalize :: "Poly1305 \<Rightarrow> bytes" where
  "Poly1305_finalize p =
     (let h1 = carry_chain 0 (map ucast (poly_h p))
      in concat (map store32 (carry_chain 0 (map (\<lambda>(hi, si). ucast hi + ucast si)
                                                  (zip (take 4 h1) (poly_s p))))))"

subsection \<open>The AEAD\<close>

definition TAG_SIZE :: nat where "TAG_SIZE = 16"
definition NONCE_SIZE :: nat where "NONCE_SIZE = 12"

definition compute_tag :: "bytes \<Rightarrow> bytes \<Rightarrow> bytes \<Rightarrow> bytes \<Rightarrow> bytes" where
  "compute_tag k nonce additional_data ciphertext =
     (let poly_key = ChaCha20_encrypt (ChaCha20 k nonce 0) (replicate 32 0);
          poly = new_Poly1305 poly_key;
          poly = Poly1305_update poly additional_data;
          poly = Poly1305_update poly ciphertext;
          lengths = store64 (of_nat (length additional_data)) @ store64 (of_nat (length ciphertext));
          poly = Poly1305_update poly lengths
      in Poly1305_finalize poly)"

text \<open>
  \<^verbatim>\<open>ChaCha20Poly1305::encrypt\<close> and \<^verbatim>\<open>decrypt\<close>; the object holds the key only, so the key stands
  for it. \<open>compute_tag\<close> is the block of statements the two functions share word for word.
\<close>

definition ChaCha20Poly1305_encrypt :: "bytes \<Rightarrow> bytes \<Rightarrow> bytes \<Rightarrow> bytes \<Rightarrow> bytes" where
  "ChaCha20Poly1305_encrypt k plaintext nonce additional_data =
     (let ciphertext = ChaCha20_encrypt (ChaCha20 k nonce 1) plaintext
      in ciphertext @ compute_tag k nonce additional_data ciphertext)"

definition ChaCha20Poly1305_decrypt :: "bytes \<Rightarrow> bytes \<Rightarrow> bytes \<Rightarrow> bytes \<Rightarrow> bytes \<Rightarrow> exn + bytes" where
  "ChaCha20Poly1305_decrypt k ciphertext nonce tag additional_data =
     (if length ciphertext < TAG_SIZE then Inl (CryptoException ''Ciphertext too short'')
      else let actual_ciphertext = take (length ciphertext - TAG_SIZE) ciphertext;
               computed_tag = compute_tag k nonce additional_data actual_ciphertext
           in if computed_tag \<noteq> tag then Inl (CryptoException ''Authentication failed'')
              else Inr (ChaCha20_encrypt (ChaCha20 k nonce 1) actual_ciphertext))"

section \<open>XOR cipher (crypto/xor_cipher.cpp)\<close>

definition KEY_SIZE :: nat where "KEY_SIZE = 32"
definition CHUNK_SIZE :: nat where "CHUNK_SIZE = 1024"

record XorCipher =
  base_key :: bytes
  current_key :: bytes
  round_counter :: "64 word"


definition rotl8 :: "byte \<Rightarrow> byte" where
  "rotl8 b = push_bit 1 b OR drop_bit 7 b"

definition update_key :: "XorCipher \<Rightarrow> XorCipher" where
  "update_key c =
     (let rc = round_counter c + 1
      in c\<lparr>round_counter := rc,
            current_key :=
              map (\<lambda>i. rotl8 (current_key c ! i XOR ucast ((rc * 31 + of_nat i * 17) AND 0xFF)))
                  [0..<KEY_SIZE]\<rparr>)"

definition xor_chunk :: "bytes \<Rightarrow> bytes \<Rightarrow> bytes" where
  "xor_chunk k chunk = map (\<lambda>i. chunk ! i XOR k ! (i mod KEY_SIZE)) [0..<length chunk]"

text \<open>
  \<^verbatim>\<open>XorCipher::process\<close>: the loop over chunks of \<open>CHUNK_SIZE\<close> bytes, with the key rolled
  between chunks. It returns the bytes and the cipher object as the loop leaves it.
\<close>

function XorCipher_process :: "XorCipher \<Rightarrow> bytes \<Rightarrow> bytes \<times> XorCipher" where
  "XorCipher_process c d =
     (if d = [] then ([], c)
      else let out = xor_chunk (current_key c) (take CHUNK_SIZE d);
               rest = drop CHUNK_SIZE d
           in if rest \<noteq> []
              then (let (out', c') = XorCipher_process (update_key c) rest in (out @ out', c'))
              else (out, c))"
  by pat_completeness auto
termination
  by (relation "measure (\<lambda>(c, d). length d)") (auto simp: CHUNK_SIZE_def)

declare XorCipher_process.simps [simp del]

definition XorCipher_reset :: "XorCipher \<Rightarrow> XorCipher" where
  "XorCipher_reset c = c\<lparr>current_key := base_key c, round_counter := 0\<rparr>"

section \<open>AES-CTR (crypto/aes_ctr.cpp)\<close>

definition sbox :: bytes where
  "sbox = [
    0x63, 0x7c, 0x77, 0x7b, 0xf2, 0x6b, 0x6f, 0xc5, 0x30, 0x01, 0x67, 0x2b, 0xfe, 0xd7, 0xab, 0x76,
    0xca, 0x82, 0xc9, 0x7d, 0xfa, 0x59, 0x47, 0xf0, 0xad, 0xd4, 0xa2, 0xaf, 0x9c, 0xa4, 0x72, 0xc0,
    0xb7, 0xfd, 0x93, 0x26, 0x36, 0x3f, 0xf7, 0xcc, 0x34, 0xa5, 0xe5, 0xf1, 0x71, 0xd8, 0x31, 0x15,
    0x04, 0xc7, 0x23, 0xc3, 0x18, 0x96, 0x05, 0x9a, 0x07, 0x12, 0x80, 0xe2, 0xeb, 0x27, 0xb2, 0x75,
    0x09, 0x83, 0x2c, 0x1a, 0x1b, 0x6e, 0x5a, 0xa0, 0x52, 0x3b, 0xd6, 0xb3, 0x29, 0xe3, 0x2f, 0x84,
    0x53, 0xd1, 0x00, 0xed, 0x20, 0xfc, 0xb1, 0x5b, 0x6a, 0xcb, 0xbe, 0x39, 0x4a, 0x4c, 0x58, 0xcf,
    0xd0, 0xef, 0xaa, 0xfb, 0x43, 0x4d, 0x33, 0x85, 0x45, 0xf9, 0x02, 0x7f, 0x50, 0x3c, 0x9f, 0xa8,
    0x51, 0xa3, 0x40, 0x8f, 0x92, 0x9d, 0x38, 0xf5, 0xbc, 0xb6, 0xda, 0x21, 0x10, 0xff, 0xf3, 0xd2,
    0xcd, 0x0c, 0x13, 0xec, 0x5f, 0x97, 0x44, 0x17, 0xc4, 0xa7, 0x7e, 0x3d, 0x64, 0x5d, 0x19, 0x73,
    0x60, 0x81, 0x4f, 0xdc, 0x22, 0x2a, 0x90, 0x88, 0x46, 0xee, 0xb8, 0x14, 0xde, 0x5e, 0x0b, 0xdb,
    0xe0, 0x32, 0x3a, 0x0a, 0x49, 0x06, 0x24, 0x5c, 0xc2, 0xd3, 0xac, 0x62, 0x91, 0x95, 0xe4, 0x79,
    0xe7, 0xc8, 0x37, 0x6d, 0x8d, 0xd5, 0x4e, 0xa9, 0x6c, 0x56, 0xf4, 0xea, 0x65, 0x7a, 0xae, 0x08,
    0xba, 0x78, 0x25, 0x2e, 0x1c, 0xa6, 0xb4, 0x77, 0x25, 0x2e, 0x1c, 0xa6, 0xb4, 0xc6, 0xe8, 0xdd,
    0x74, 0x1f, 0x4b, 0xbd, 0x8b, 0x8a, 0x70, 0x3e, 0xb5, 0x66, 0x48, 0x03, 0xf6, 0x0e, 0x61, 0x35,
    0x57, 0xb9, 0x86, 0xc1, 0x1d, 0x9e, 0xe1, 0xf8, 0x98, 0x11, 0x69, 0xd9, 0x8e, 0x94, 0x9b, 0x1e,
    0x87, 0xe9, 0xce, 0x55, 0x28, 0xdf, 0x8c, 0xa1, 0x89, 0x0d, 0xbf, 0xe6, 0x42, 0x68, 0x41, 0x99]"

definition rcon :: bytes where
  "rcon = [0x00, 0x01, 0x02, 0x04, 0x08, 0x10, 0x20, 0x40, 0x80, 0x1b, 0x36]"

definition BLOCK_SIZE :: nat where "BLOCK_SIZE = 16"
definition AesCtr_IV_SIZE :: nat where "AesCtr_IV_SIZE = 16"

text \<open>
  What the build and the machine decide: whether the AES instructions were compiled in
  (\<^verbatim>\<open>__AES__\<close> or \<^verbatim>\<open>__PCLMUL__\<close>), what \<^verbatim>\<open>cpuid\<close> reports, and what the two instructions
  \<^verbatim>\<open>_mm_aesenc_si128\<close> and \<^verbatim>\<open>_mm_aesenclast_si128\<close> compute on 128-bit registers.
\<close>

record platform =
  compiled_with_aes :: bool
  cpuid_aes_ni :: bool
  cpuid_simd :: bool
  mm_aesenc_si128 :: "128 word \<Rightarrow> 128 word \<Rightarrow> 128 word"
  mm_aesenclast_si128 :: "128 word \<Rightarrow> 128 word \<Rightarrow> 128 word"

record AesCtr =
  key :: bytes
  use_aes_ni :: bool
  use_simd :: bool
  expanded_key :: bytes

definition sub_word :: "32 word \<Rightarrow> 32 word" where
  "sub_word temp =
     push_bit 24 (ucast (sbox ! unat (drop_bit 24 temp AND 0xFF)))
     OR push_bit 16 (ucast (sbox ! unat (drop_bit 16 temp AND 0xFF)))
     OR push_bit 8 (ucast (sbox ! unat (drop_bit 8 temp AND 0xFF)))
     OR ucast (sbox ! unat (temp AND 0xFF))"

definition expand_key_step :: "nat \<Rightarrow> bytes \<Rightarrow> bytes" where
  "expand_key_step i ek =
     (let temp = load32 ek (i - 4);
          temp = (if (i div 4) mod 8 = 0
                  then sub_word (push_bit 8 temp OR drop_bit 24 temp)
                         XOR ucast (rcon ! ((i div 4) div 8))
                  else if (i div 4) mod 8 = 4 then sub_word temp
                  else temp);
          temp = temp XOR load32 ek (i - 32);
          w = store32 temp
      in ek[i := w ! 0, i + 1 := w ! 1, i + 2 := w ! 2, i + 3 := w ! 3])"

text \<open>
  \<open>expand_key\<close> fills the 240 bytes of \<open>expanded_key\<close>: the key first, then one word per
  step for \<open>i = 32, 36, ..., 236\<close>. The bytes beyond the key are unassigned before their
  step writes them and no step reads ahead; the model starts them at 0.
\<close>

definition expand_key :: "bytes \<Rightarrow> bytes" where
  "expand_key k = fold expand_key_step (map (\<lambda>j. 4 * j) [8..<60]) (take 32 k @ replicate 208 0)"

definition new_AesCtr :: "platform \<Rightarrow> bytes \<Rightarrow> AesCtr" where
  "new_AesCtr pf k =
     \<lparr>key = k, use_aes_ni = cpuid_aes_ni pf, use_simd = cpuid_simd pf,
      expanded_key = expand_key k\<rparr>"

definition shift_rows :: "bytes \<Rightarrow> bytes" where
  "shift_rows st =
     (let temp = st ! 1;
          st = st[1 := st ! 5]; st = st[5 := st ! 9]; st = st[9 := st ! 13]; st = st[13 := temp];
          temp = st ! 2;
          st = st[2 := st ! 10]; st = st[10 := temp];
          temp = st ! 6;
          st = st[6 := st ! 14]; st = st[14 := temp];
          temp = st ! 3;
          st = st[3 := st ! 15]; st = st[15 := st ! 11]; st = st[11 := st ! 7]; st = st[7 := temp]
      in st)"

definition add_round_key :: "bytes \<Rightarrow> nat \<Rightarrow> bytes \<Rightarrow> bytes" where
  "add_round_key ek rnd st = map (\<lambda>i. st ! i XOR ek ! (rnd * 16 + i)) [0..<16]"

definition sub_bytes :: "bytes \<Rightarrow> bytes" where
  "sub_bytes st = map (\<lambda>i. sbox ! unat (st ! i)) [0..<16]"

definition encrypt_block_software :: "AesCtr \<Rightarrow> bytes \<Rightarrow> bytes" where
  "encrypt_block_software c plaintext =
     (let st = add_round_key (expanded_key c) 0 plaintext;
          st = fold (\<lambda>rnd st. add_round_key (expanded_key c) rnd (shift_rows (sub_bytes st)))
                 [1..<14] st;
          st = sub_bytes st
      in add_round_key (expanded_key c) 14 st)"

text \<open>
  \<^verbatim>\<open>_mm_loadu_si128\<close> and \<^verbatim>\<open>_mm_storeu_si128\<close>: sixteen bytes, lowest address in the lowest
  bits.
\<close>

definition loadu_si128 :: "bytes \<Rightarrow> nat \<Rightarrow> 128 word" where
  "loadu_si128 d i = fold (\<lambda>j v. v OR push_bit (8 * j) (ucast (d ! (i + j)))) [0..<16] 0"

definition storeu_si128 :: "128 word \<Rightarrow> bytes" where
  "storeu_si128 v = map (\<lambda>j. ucast (drop_bit (8 * j) v)) [0..<16]"

definition encrypt_block_aes_ni :: "platform \<Rightarrow> AesCtr \<Rightarrow> bytes \<Rightarrow> bytes" where
  "encrypt_block_aes_ni pf c plaintext =
     (if compiled_with_aes pf then
        let block = loadu_si128 plaintext 0;
            block = block XOR loadu_si128 (expanded_key c) 0;
            block = fold (\<lambda>rnd block. mm_aesenc_si128 pf block (loadu_si128 (expanded_key c) (rnd * 16)))
                      [1..<14] block;
            block = mm_aesenclast_si128 pf block (loadu_si128 (expanded_key c) (14 * 16))
        in storeu_si128 block
      else encrypt_block_software c plaintext)"

definition encrypt_block :: "platform \<Rightarrow> AesCtr \<Rightarrow> bytes \<Rightarrow> bytes" where
  "encrypt_block pf c counter_block =
     (if use_aes_ni c then encrypt_block_aes_ni pf c counter_block
      else encrypt_block_software c counter_block)"

text \<open>
  The loop of \<^verbatim>\<open>AesCtr::process\<close>: \<open>counter_block\<close> starts as the IV; each round writes the
  eight bytes of \<open>counter\<close> into its bytes 8 to 15, encrypts it and XORs the next 16 bytes
  of the data with the result.
\<close>

function AesCtr_process_loop :: "platform \<Rightarrow> AesCtr \<Rightarrow> bytes \<Rightarrow> 64 word \<Rightarrow> bytes \<Rightarrow> bytes" where
  "AesCtr_process_loop pf c counter_block counter d =
     (if d = [] then []
      else let counter_block = take 8 counter_block @ map (\<lambda>i. ucast (drop_bit (i * 8) counter AND 0xFF)) [0..<8];
               keystream = encrypt_block pf c counter_block
           in xor_bytes (take BLOCK_SIZE d) keystream
              @ AesCtr_process_loop pf c counter_block (counter + 1) (drop BLOCK_SIZE d))"
  by pat_completeness auto
termination
  by (relation "measure (\<lambda>(pf, c, cb, n, d). length d)") (auto simp: BLOCK_SIZE_def)

declare AesCtr_process_loop.simps [simp del]

definition AesCtr_process :: "platform \<Rightarrow> AesCtr \<Rightarrow> bytes \<Rightarrow> bytes \<Rightarrow> bytes" where
  "AesCtr_process pf c d iv = (if d = [] then [] else AesCtr_process_loop pf c iv 0 d)"

section \<open>AES-256-GCM, CPU build (crypto/aes_256_gcm_gpu_cpu.cpp)\<close>

definition GCM_IV_SIZE :: nat where "GCM_IV_SIZE = 12"
definition GCM_TAG_SIZE :: nat where "GCM_TAG_SIZE = 16"

record Aes256GcmGpu =
  key :: bytes
  fallback_cipher :: AesCtr

definition new_Aes256GcmGpu :: "platform \<Rightarrow> bytes \<Rightarrow> Aes256GcmGpu" where
  "new_Aes256GcmGpu pf k = \<lparr>key = k, fallback_cipher = new_AesCtr pf k\<rparr>"

definition to_aes_iv :: "bytes \<Rightarrow> bytes" where
  "to_aes_iv iv = take GCM_IV_SIZE iv @ replicate (AesCtr_IV_SIZE - GCM_IV_SIZE) 0"

text \<open>
  The tag loop both functions run: byte \<open>i\<close> of the tag is \<open>key[i] ^ iv[i % 12]\<close> XORed with
  every sixteenth byte of the text from position \<open>i\<close> on.
\<close>

definition simple_tag :: "bytes \<Rightarrow> bytes \<Rightarrow> bytes \<Rightarrow> bytes" where
  "simple_tag k iv txt =
     map (\<lambda>i. fold (\<lambda>j t. t XOR txt ! j)
                 (filter (\<lambda>j. j mod GCM_TAG_SIZE = i) [0..<length txt])
                 (k ! i XOR iv ! (i mod GCM_IV_SIZE)))
         [0..<GCM_TAG_SIZE]"

definition encrypt_cpu :: "platform \<Rightarrow> Aes256GcmGpu \<Rightarrow> bytes \<Rightarrow> bytes \<Rightarrow> bytes \<Rightarrow> bytes" where
  "encrypt_cpu pf c plaintext iv additional_data =
     (let ciphertext = AesCtr_process pf (fallback_cipher c) plaintext (to_aes_iv iv)
      in ciphertext @ simple_tag (Aes256GcmGpu.key c) iv ciphertext)"

definition decrypt_cpu ::
    "platform \<Rightarrow> Aes256GcmGpu \<Rightarrow> bytes \<Rightarrow> bytes \<Rightarrow> bytes \<Rightarrow> bytes \<Rightarrow> exn + bytes" where
  "decrypt_cpu pf c ciphertext iv tag additional_data =
     (if length ciphertext < GCM_TAG_SIZE
      then Inl (runtime_error ''Ciphertext too short for authentication tag'')
      else let d = take (length ciphertext - GCM_TAG_SIZE) ciphertext;
               stored_tag = drop (length ciphertext - GCM_TAG_SIZE) ciphertext;
               computed_tag = simple_tag (Aes256GcmGpu.key c) iv d
           in if stored_tag \<noteq> computed_tag
              then Inl (runtime_error ''Authentication tag verification failed'')
              else Inr (AesCtr_process pf (fallback_cipher c) d (to_aes_iv iv)))"

section \<open>Crypto engines (crypto/crypto_engine.cpp)\<close>






record HighSecurityEngine =
  cipher :: bytes
  current_nonce :: bytes
  nonce_counter :: "64 word"

record FastSecurityEngine =
  cipher :: XorCipher
  secret_key :: string

record AesSecurityEngine =
  cipher :: AesCtr
  secret_key :: string

record GpuSecurityEngine =
  cipher :: Aes256GcmGpu
  secret_key :: string
  current_iv :: bytes
  iv_counter :: "64 word"





text \<open>
  \<open>encrypt\<close> draws a fresh nonce or IV from the random generator; the model takes the
  drawn bytes as the argument \<open>nonce\<close> or \<open>iv\<close>.
\<close>

definition HighSecurityEngine_encrypt :: "HighSecurityEngine \<Rightarrow> bytes \<Rightarrow> bytes \<Rightarrow> bytes" where
  "HighSecurityEngine_encrypt e nonce d =
     nonce @ ChaCha20Poly1305_encrypt (HighSecurityEngine.cipher e) d nonce []"

definition HighSecurityEngine_decrypt :: "HighSecurityEngine \<Rightarrow> bytes \<Rightarrow> exn + bytes" where
  "HighSecurityEngine_decrypt e d =
     (if length d < NONCE_SIZE + TAG_SIZE then Inl (runtime_error ''Encrypted message too short'')
      else let nonce = take NONCE_SIZE d;
               encrypted_data = drop NONCE_SIZE d;
               tag = drop (length encrypted_data - TAG_SIZE) encrypted_data
           in ChaCha20Poly1305_decrypt (HighSecurityEngine.cipher e) encrypted_data nonce tag [])"

definition FastSecurityEngine_encrypt ::
    "FastSecurityEngine \<Rightarrow> bytes \<Rightarrow> bytes \<times> FastSecurityEngine" where
  "FastSecurityEngine_encrypt e d =
     (let (out, c) = XorCipher_process (XorCipher_reset (FastSecurityEngine.cipher e)) d
      in (out, e\<lparr>FastSecurityEngine.cipher := c\<rparr>))"

definition FastSecurityEngine_decrypt ::
    "FastSecurityEngine \<Rightarrow> bytes \<Rightarrow> bytes \<times> FastSecurityEngine" where
  "FastSecurityEngine_decrypt e d =
     (let (out, c) = XorCipher_process (XorCipher_reset (FastSecurityEngine.cipher e)) d
      in (out, e\<lparr>FastSecurityEngine.cipher := c\<rparr>))"

definition AesSecurityEngine_encrypt ::
    "platform \<Rightarrow> AesSecurityEngine \<Rightarrow> bytes \<Rightarrow> bytes \<Rightarrow> bytes" where
  "AesSecurityEngine_encrypt pf e iv d = iv @ AesCtr_process pf (AesSecurityEngine.cipher e) d iv"

definition AesSecurityEngine_decrypt :: "platform \<Rightarrow> AesSecurityEngine \<Rightarrow> bytes \<Rightarrow> exn + bytes" where
  "AesSecurityEngine_decrypt pf e d =
     (if length d < AesCtr_IV_SIZE then Inl (runtime_error ''Encrypted data too short for AES-CTR'')
      else let iv = take AesCtr_IV_SIZE d;
               encrypted_data = drop AesCtr_IV_SIZE d
           in Inr (AesCtr_process pf (AesSecurityEngine.cipher e) encrypted_data iv))"

definition GpuSecurityEngine_encrypt ::
    "platform \<Rightarrow> GpuSecurityEngine \<Rightarrow> bytes \<Rightarrow> bytes \<Rightarrow> bytes" where
  "GpuSecurityEngine_encrypt pf e iv d = iv @ encrypt_cpu pf (GpuSecurityEngine.cipher e) d iv []"

definition GpuSecurityEngine_decrypt :: "platform \<Rightarrow> GpuSecurityEngine \<Rightarrow> bytes \<Rightarrow> exn + bytes" where
  "GpuSecurityEngine_decrypt pf e d =
     (if length d < GCM_IV_SIZE + GCM_TAG_SIZE
      then Inl (runtime_error ''Encrypted data too short for AES-256-GCM'')
      else let iv = take GCM_IV_SIZE d;
               ciphertext_with_tag = drop GCM_IV_SIZE d
           in if length ciphertext_with_tag < GCM_TAG_SIZE
              then Inl (runtime_error ''Ciphertext too short for authentication tag'')
              else let tag = drop (length ciphertext_with_tag - GCM_TAG_SIZE) ciphertext_with_tag;
                       ciphertext = take (length ciphertext_with_tag - GCM_TAG_SIZE) ciphertext_with_tag
                   in decrypt_cpu pf (GpuSecurityEngine.cipher e) ciphertext iv tag [])"

text \<open>The abstract \<^verbatim>\<open>CryptoEngine\<close> with its four implementations, and the factory.\<close>

datatype CryptoEngine =
    High HighSecurityEngine
  | Fast FastSecurityEngine
  | Aes AesSecurityEngine
  | Gpu GpuSecurityEngine


fun get_security_level :: "CryptoEngine \<Rightarrow> SecurityLevel" where
  "get_security_level (High e) = HIGH"
| "get_security_level (Fast e) = FAST"
| "get_security_level (Aes e) = AES"
| "get_security_level (Gpu e) = AES_256_GCM"

text \<open>How many random bytes \<open>encrypt\<close> draws for its nonce or IV.\<close>

fun nonce_size :: "CryptoEngine \<Rightarrow> nat" where
  "nonce_size (High e) = NONCE_SIZE"
| "nonce_size (Fast e) = 0"
| "nonce_size (Aes e) = AesCtr_IV_SIZE"
| "nonce_size (Gpu e) = GCM_IV_SIZE"

fun CryptoEngine_encrypt :: "platform \<Rightarrow> CryptoEngine \<Rightarrow> bytes \<Rightarrow> bytes \<Rightarrow> bytes \<times> CryptoEngine" where
  "CryptoEngine_encrypt pf (High e) nonce d = (HighSecurityEngine_encrypt e nonce d, High e)"
| "CryptoEngine_encrypt pf (Fast e) nonce d =
     (let (out, e') = FastSecurityEngine_encrypt e d in (out, Fast e'))"
| "CryptoEngine_encrypt pf (Aes e) nonce d = (AesSecurityEngine_encrypt pf e nonce d, Aes e)"
| "CryptoEngine_encrypt pf (Gpu e) nonce d = (GpuSecurityEngine_encrypt pf e nonce d, Gpu e)"

fun CryptoEngine_decrypt :: "platform \<Rightarrow> CryptoEngine \<Rightarrow> bytes \<Rightarrow> exn + (bytes \<times> CryptoEngine)" where
  "CryptoEngine_decrypt pf (High e) d =
     andThen (HighSecurityEngine_decrypt e d) (\<lambda>out. Inr (out, High e))"
| "CryptoEngine_decrypt pf (Fast e) d =
     (let (out, e') = FastSecurityEngine_decrypt e d in Inr (out, Fast e'))"
| "CryptoEngine_decrypt pf (Aes e) d =
     andThen (AesSecurityEngine_decrypt pf e d) (\<lambda>out. Inr (out, Aes e))"
| "CryptoEngine_decrypt pf (Gpu e) d =
     andThen (GpuSecurityEngine_decrypt pf e d) (\<lambda>out. Inr (out, Gpu e))"

section \<open>Concrete inputs\<close>

text \<open>A machine without the AES instructions, an AES-256-GCM engine on it, and an acknowledgement.\<close>

definition software_platform :: platform where
  "software_platform =
     \<lparr>compiled_with_aes = False, cpuid_aes_ni = False, cpuid_simd = False,
      mm_aesenc_si128 = (\<lambda>b k. 0), mm_aesenclast_si128 = (\<lambda>b k. 0)\<rparr>"

definition example_gcm_engine :: GpuSecurityEngine where
  "example_gcm_engine =
     \<lparr>cipher = new_Aes256GcmGpu software_platform (replicate 32 0x1f),
      secret_key = ''0x'' @ concat (replicate 32 ''1f''),
      current_iv = replicate 12 0, iv_counter = 0\<rparr>"

definition example_ack :: Message where
  "example_ack = new_Message (FileAckMsg \<lparr>bytes_received = 3, success = True, error_message = []\<rparr>)"

section \<open>Paths (\<^verbatim>\<open>std::filesystem::path\<close> on a POSIX host)\<close>

text \<open>
  A path is its generic-format decomposition: whether it has a root directory, and the
  sequence of file names that iteration yields after the root. As in the standard, a path
  that ends in a separator has an empty last name. \<open>path_of\<close> is the conversion from a
  string (runs of \<^verbatim>\<open>/\<close> count once) and \<open>string_of\<close> the conversion back.
\<close>

record fspath =
  rooted :: bool
  elems :: "string list"

fun path_fields :: "string \<Rightarrow> string list" where
  "path_fields [] = [[]]"
| "path_fields (c # cs) =
     (if c = CHR ''/'' then [] # path_fields cs
      else case path_fields cs of f # fs \<Rightarrow> (c # f) # fs | [] \<Rightarrow> [[c]])"

definition path_of :: "string \<Rightarrow> fspath" where
  "path_of str =
     (let fs = filter (\<lambda>f. f \<noteq> []) (path_fields str)
      in \<lparr>rooted = (str \<noteq> [] \<and> hd str = CHR ''/''),
          elems = (if fs \<noteq> [] \<and> last str = CHR ''/'' then fs @ [[]] else fs)\<rparr>)"

fun join_names :: "string list \<Rightarrow> string" where
  "join_names [] = []"
| "join_names [n] = n"
| "join_names (n # m # ns) = n @ ''/'' @ join_names (m # ns)"

definition string_of :: "fspath \<Rightarrow> string" where
  "string_of p = (if rooted p then ''/'' else []) @ join_names (elems p)"

definition empty_path :: fspath where
  "empty_path = \<lparr>rooted = False, elems = []\<rparr>"

definition dot_path :: fspath where
  "dot_path = \<lparr>rooted = False, elems = [''.'']\<rparr>"

text \<open>
  \<open>lexically_normal\<close> after the rules of the standard: dot names go, a name followed by
  dot-dot goes with it, dot-dot right under the root goes, a trailing separator stays
  where the last name was removed (but not after a final dot-dot), and a path that
  becomes empty is a dot. \<open>normal_names\<close> runs through the names with the names kept so
  far; \<open>[]\<close> names only mark a trailing separator.
\<close>

fun normal_names :: "bool \<Rightarrow> string list \<Rightarrow> string list \<Rightarrow> string list" where
  "normal_names r acc [] = acc"
| "normal_names r acc (n # ns) =
     (if n = [] \<or> n = ''.'' then normal_names r acc ns
      else if n = ''..'' then
        (if acc \<noteq> [] \<and> last acc \<noteq> ''..'' then normal_names r (butlast acc) ns
         else if r then normal_names r acc ns
         else normal_names r (acc @ [n]) ns)
      else normal_names r (acc @ [n]) ns)"

definition lexically_normal :: "fspath \<Rightarrow> fspath" where
  "lexically_normal p =
     (if elems p = [] then p
      else let st = normal_names (rooted p) [] (elems p);
               trailing = (last (elems p) \<in> {[], ''.'', ''..''})
           in if st = [] then (if rooted p then \<lparr>rooted = True, elems = []\<rparr> else dot_path)
              else \<lparr>rooted = rooted p,
                    elems = st @ (if trailing \<and> last st \<noteq> ''..'' then [[]] else [])\<rparr>)"

text \<open>
  \<open>lexically_relative\<close>: nothing when one path is rooted and the other is not; otherwise
  the common prefix is dropped, one dot-dot is written for each real name left in the
  base (less its own dot-dots), and the rest of the path follows.
\<close>

fun strip_common :: "string list \<Rightarrow> string list \<Rightarrow> string list \<times> string list" where
  "strip_common (a # as) (b # bs) = (if a = b then strip_common as bs else (a # as, b # bs))"
| "strip_common as bs = (as, bs)"

definition lexically_relative :: "fspath \<Rightarrow> fspath \<Rightarrow> fspath" where
  "lexically_relative p base =
     (if rooted p \<noteq> rooted base then empty_path
      else let (a, b) = strip_common (elems p) (elems base) in
        if a = [] \<and> b = [] then dot_path
        else let n = int (length (filter (\<lambda>x. x \<noteq> [] \<and> x \<noteq> ''.'' \<and> x \<noteq> ''..'') b))
                     - int (length (filter (\<lambda>x. x = ''..'') b))
             in if n < 0 then empty_path
                else if n = 0 \<and> (a = [] \<or> hd a = []) then dot_path
                else \<lparr>rooted = False, elems = replicate (nat n) ''..'' @ a\<rparr>)"

definition filename :: "fspath \<Rightarrow> string" where
  "filename p = (if elems p = [] then [] else last (elems p))"

definition parent_path :: "fspath \<Rightarrow> fspath" where
  "parent_path p = (if elems p = [] then p else p\<lparr>elems := butlast (elems p)\<rparr>)"

text \<open>\<^verbatim>\<open>operator/\<close>: a rooted right operand replaces the left one.\<close>

definition path_append :: "fspath \<Rightarrow> fspath \<Rightarrow> fspath" where
  "path_append p q =
     (if rooted q then q
      else let ns = (if elems p \<noteq> [] \<and> last (elems p) = [] then butlast (elems p) else elems p)
           in p\<lparr>elems := ns @ (if elems q = [] then (if ns = [] then [] else [[]]) else elems q)\<rparr>)"

section \<open>The disk\<close>

text \<open>
  The disk is a tree without symbolic links: every node is a regular file with its bytes
  or a directory, found under the list of names that leads to it from the root; the
  root is a directory. A relative path starts from \<open>cwd\<close>. \<open>walk\<close> follows the names of a
  path: a dot stays, a dot-dot goes to the parent by name (which is where the system
  arrives on a tree without links when the directory left exists). \<open>weakly_canonical\<close> is
  what \<^verbatim>\<open>std::filesystem::weakly_canonical\<close> answers on this machine; the answer depends
  on the current directory and on which prefix of the path exists, so it is a parameter
  of the disk, and \<open>None\<close> is its \<^verbatim>\<open>filesystem_error\<close>.
\<close>

datatype node = File bytes | Dir

record filesystem =
  nodes :: "string list \<rightharpoonup> node"
  cwd :: "string list"
  weakly_canonical :: "fspath \<Rightarrow> fspath option"

fun walk :: "string list \<Rightarrow> string list \<Rightarrow> string list" where
  "walk at [] = at"
| "walk at (n # ns) =
     (if n = [] \<or> n = ''.'' then walk at ns
      else if n = ''..'' then walk (butlast at) ns
      else walk (at @ [n]) ns)"

definition key_of :: "filesystem \<Rightarrow> fspath \<Rightarrow> string list" where
  "key_of fs p = walk (if rooted p then [] else cwd fs) (elems p)"

definition node_at :: "filesystem \<Rightarrow> string list \<Rightarrow> node option" where
  "node_at fs k = (if k = [] then Some Dir else nodes fs k)"

text \<open>
  What \<^verbatim>\<open>stat\<close> finds under a path string: the system call reads the string up to its
  first NUL character; it finds nothing for the empty string, and nothing for a regular
  file named with a trailing separator.
\<close>

definition lookup :: "filesystem \<Rightarrow> string \<Rightarrow> node option" where
  "lookup fs str =
     (if c_str str = [] then None
      else let p = path_of (c_str str); n = node_at fs (key_of fs p)
           in if elems p \<noteq> [] \<and> last (elems p) = [] \<and> n \<noteq> Some Dir then None else n)"

section \<open>File manager (file/file_manager.cpp)\<close>

definition exists :: "filesystem \<Rightarrow> string \<Rightarrow> bool" where
  "exists fs path = (lookup fs path \<noteq> None)"

definition is_directory :: "filesystem \<Rightarrow> string \<Rightarrow> bool" where
  "is_directory fs path = (lookup fs path = Some Dir)"

definition FileManager_file_size :: "filesystem \<Rightarrow> string \<Rightarrow> exn + 64 word" where
  "FileManager_file_size fs path =
     (case lookup fs path of
        Some (File d) \<Rightarrow> Inr (of_nat (length d))
      | Some Dir \<Rightarrow>
          Inl (FileException (''Failed to get file size for '' @ path @ '': Is a directory''))
      | None \<Rightarrow>
          Inl (FileException (''Failed to get file size for '' @ path
                               @ '': No such file or directory'')))"

text \<open>
  \<^verbatim>\<open>create_directories(path, ec)\<close> makes every missing directory on the way, and stops
  with an error code where a regular file is in the way (the directories made before
  stay). The wrapper returns the bool and drops the error code. The path is taken to hold
  no NUL character.
\<close>

fun mkdirs :: "(string list \<rightharpoonup> node) \<Rightarrow> string list \<Rightarrow> string list \<Rightarrow> bool \<times> (string list \<rightharpoonup> node)" where
  "mkdirs m at [] = (False, m)"
| "mkdirs m at (n # ns) =
     (case (if at @ [n] = [] then Some Dir else m (at @ [n])) of
        Some (File d) \<Rightarrow> (False, m)
      | Some Dir \<Rightarrow> mkdirs m (at @ [n]) ns
      | None \<Rightarrow> (let (c, m') = mkdirs (m(at @ [n] \<mapsto> Dir)) (at @ [n]) ns in (True, m')))"

definition create_directories :: "filesystem \<Rightarrow> string \<Rightarrow> bool \<times> filesystem" where
  "create_directories fs path =
     (if path = [] then (False, fs)
      else let (c, m) = mkdirs (nodes fs) [] (key_of fs (path_of path))
           in (c, fs\<lparr>nodes := m\<rparr>))"

definition normalize_path :: "string \<Rightarrow> string" where
  "normalize_path path = string_of (lexically_normal (path_of path))"

definition get_filename :: "string \<Rightarrow> string" where
  "get_filename path = filename (path_of path)"

definition get_directory :: "string \<Rightarrow> string" where
  "get_directory path = string_of (parent_path (path_of path))"

definition join_path :: "string \<Rightarrow> string \<Rightarrow> string" where
  "join_path base relative = string_of (path_append (path_of base) (path_of relative))"

definition get_partial_file_size :: "filesystem \<Rightarrow> string \<Rightarrow> exn + 64 word" where
  "get_partial_file_size fs path =
     (if \<not> exists fs path then Inr 0 else FileManager_file_size fs path)"

text \<open>
  \<^verbatim>\<open>std::filesystem::relative(p, base)\<close> is
  \<^verbatim>\<open>weakly_canonical(p).lexically_relative(weakly_canonical(base))\<close>.
\<close>

definition relative_path :: "filesystem \<Rightarrow> fspath \<Rightarrow> fspath \<Rightarrow> fspath option" where
  "relative_path fs p base =
     (case weakly_canonical fs p of None \<Rightarrow> None
      | Some cp \<Rightarrow> (case weakly_canonical fs base of None \<Rightarrow> None
                     | Some cb \<Rightarrow> Some (lexically_relative cp cb)))"

definition is_path_safe :: "filesystem \<Rightarrow> string \<Rightarrow> string \<Rightarrow> bool" where
  "is_path_safe fs path base_directory =
     (let normalized_path = lexically_normal (path_of path);
          normalized_base = lexically_normal (path_of base_directory)
      in case relative_path fs normalized_path normalized_base of
           None \<Rightarrow> False
         | Some rel \<Rightarrow>
             if rel = dot_path then True
             else string_of rel \<noteq> [] \<and> hd (string_of rel) \<noteq> CHR ''.'')"

text \<open>\<^verbatim>\<open>std::to_string\<close> of an unsigned value: its decimal digits.\<close>

fun to_string :: "nat \<Rightarrow> string" where
  "to_string n =
     (if n < 10 then [char_of (48 + n)] else to_string (n div 10) @ [char_of (48 + n mod 10)])"

declare to_string.simps [simp del]

subsection \<open>Writing a chunk\<close>

text \<open>
  Opening a \<^verbatim>\<open>std::fstream\<close>. With \<^verbatim>\<open>in | out\<close> the file must exist and be a regular file.
  With \<^verbatim>\<open>out\<close> or \<^verbatim>\<open>in | out | trunc\<close> the file is created or emptied, which needs a
  last name that can name a file, an existing parent directory, and no directory under
  that name. The stream passes the path to the system up to its first NUL character.
\<close>

definition opens_existing :: "filesystem \<Rightarrow> string \<Rightarrow> bool" where
  "opens_existing fs path = (case lookup fs path of Some (File d) \<Rightarrow> True | _ \<Rightarrow> False)"

definition open_truncating :: "filesystem \<Rightarrow> string \<Rightarrow> filesystem option" where
  "open_truncating fs path =
     (let p = path_of (c_str path); k = key_of fs p
      in if filename p \<notin> {[], ''.'', ''..''} \<and> k \<noteq> []
            \<and> node_at fs (butlast k) = Some Dir \<and> node_at fs k \<noteq> Some Dir
         then Some (fs\<lparr>nodes := (nodes fs)(k \<mapsto> File [])\<rparr>)
         else None)"

definition contents :: "filesystem \<Rightarrow> string \<Rightarrow> bytes" where
  "contents fs path = (case lookup fs path of Some (File d) \<Rightarrow> d | _ \<Rightarrow> [])"

text \<open>
  Writing \<open>d\<close> at position \<open>pos\<close> of a file with bytes \<open>old\<close>: bytes between the old end
  and \<open>pos\<close> read as zero afterwards; writing nothing leaves the file as it is.
\<close>

definition written_at :: "bytes \<Rightarrow> nat \<Rightarrow> bytes \<Rightarrow> bytes" where
  "written_at old pos d =
     (if d = [] then old
      else take pos (old @ replicate (pos - length old) 0) @ d @ drop (pos + length d) old)"

text \<open>
  The tail of \<open>write_file_chunk\<close> on the open stream: \<^verbatim>\<open>seekp(offset)\<close> fails for an offset
  that is negative as a \<^verbatim>\<open>streamoff\<close>, then the write.
\<close>

definition seek_and_write ::
    "filesystem \<Rightarrow> string \<Rightarrow> 64 word \<Rightarrow> bytes \<Rightarrow> exn option \<times> filesystem" where
  "seek_and_write fs path off d =
     (if unat off \<ge> 2 ^ 63
      then (Some (FileException (''Failed to seek to offset '' @ to_string (unat off)
                                   @ '' in file: '' @ path)), fs)
      else (None, fs\<lparr>nodes := (nodes fs)(key_of fs (path_of (c_str path)) \<mapsto>
                                   File (written_at (contents fs path) (unat off) d))\<rparr>))"

text \<open>
  \<open>write_file_chunk\<close> returns the exception it throws, if any, and the disk as it leaves
  it (directories and an empty file it made stay when a later step throws). After the
  file was made by the \<^verbatim>\<open>out\<close> open, the second open with the first mode finds it.
\<close>

definition write_file_chunk ::
    "filesystem \<Rightarrow> string \<Rightarrow> 64 word \<Rightarrow> bytes \<Rightarrow> exn option \<times> filesystem" where
  "write_file_chunk fs path off d =
     (let dir = get_directory path;
          fs = (if dir \<noteq> [] \<and> \<not> exists fs dir then snd (create_directories fs dir) else fs);
          first_open = (if off = 0 then open_truncating fs path
                        else if opens_existing fs path then Some fs else None)
      in case first_open of
           Some fs1 \<Rightarrow> seek_and_write fs1 path off d
         | None \<Rightarrow>
             (case open_truncating fs path of
                None \<Rightarrow> (Some (FileException (''Failed to create file: '' @ path)), fs)
              | Some fs1 \<Rightarrow> seek_and_write fs1 path off d))"

section \<open>Environment, sockets and configuration\<close>

text \<open>
  The world outside the connection object: the disk, the bytes the random generators
  will deliver (with the count already drawn), the contents of never-assigned scalars,
  and the machine.
\<close>

record world =
  disk :: filesystem
  random_device :: "nat \<Rightarrow> byte"
  drawn :: nat
  indeterminate :: uninit
  machine :: platform

definition generate_random_bytes :: "world \<Rightarrow> nat \<Rightarrow> bytes \<times> world" where
  "generate_random_bytes w n =
     (map (random_device w) [drawn w..<drawn w + n], w\<lparr>drawn := drawn w + n\<rparr>)"

text \<open>
  A connected socket: the bytes the peer has sent and then closed behind (\<open>inbox\<close>), the
  bytes written to the peer (\<open>outbox\<close>), and whether the peer still takes bytes.
  \<open>Socket_receive\<close> hands out what is there, up to the count asked for, and throws when
  nothing is left; \<open>Socket_send\<close> writes everything or throws.
\<close>

record Socket =
  inbox :: bytes
  outbox :: bytes
  writable :: bool

definition Socket_send :: "Socket \<Rightarrow> bytes \<Rightarrow> exn + Socket" where
  "Socket_send sock d =
     (if writable sock then Inr (sock\<lparr>outbox := outbox sock @ d\<rparr>)
      else Inl (NetworkException ''Failed to send data''))"

definition Socket_receive :: "Socket \<Rightarrow> nat \<Rightarrow> exn + (bytes \<times> Socket)" where
  "Socket_receive sock n =
     (if take n (inbox sock) = [] then Inl (NetworkException ''Connection closed by peer'')
      else Inr (take n (inbox sock), sock\<lparr>inbox := drop n (inbox sock)\<rparr>))"

record ServerConfig =
  require_auth :: bool
  secret_key :: string
  allowed_paths :: "string list"


text \<open>\<open>common/utils.cpp\<close>, the branch compiled when \<^verbatim>\<open>_WIN32\<close> is not defined.\<close>

definition convert_to_native_path :: "string \<Rightarrow> string" where
  "convert_to_native_path path = map (\<lambda>c. if c = CHR 0x5C then CHR ''/'' else c) path"

definition is_absolute_path :: "string \<Rightarrow> bool" where
  "is_absolute_path path = (if path = [] then False else hd path = CHR ''/'')"

section \<open>Client, sending side (client/client.cpp)\<close>

text \<open>
  The members of \<^verbatim>\<open>Client\<close> that \<open>send_message\<close> reads: the socket, the legacy cipher
  (its key) and the engine, either of which may be null.
\<close>

record Client =
  socket :: Socket
  crypto :: "bytes option"
  crypto_engine :: "CryptoEngine option"



section \<open>Server connection handler (server/server.cpp)\<close>

text \<open>
  \<open>crypto\<close> is the shared legacy \<^verbatim>\<open>ChaCha20Poly1305\<close> object (its key) or null;
  \<open>crypto_engine\<close> is the engine or null.
\<close>

record ConnectionHandler =
  client_socket :: Socket
  config :: ServerConfig
  crypto :: "bytes option"
  crypto_engine :: "CryptoEngine option"
  negotiated_security_level :: SecurityLevel
  sequence_number :: "32 word"
  client_address :: string
  current_file_path :: string
  handshake_completed :: bool

definition new_ConnectionHandler ::
    "Socket \<Rightarrow> ServerConfig \<Rightarrow> bytes option \<Rightarrow> ConnectionHandler" where
  "new_ConnectionHandler sock cfg cr =
     \<lparr>client_socket = sock, config = cfg, crypto = cr, crypto_engine = None,
      negotiated_security_level = HIGH, sequence_number = 1, client_address = ''client'',
      current_file_path = [], handshake_completed = False\<rparr>"

definition encrypt_message ::
    "world \<Rightarrow> ConnectionHandler \<Rightarrow> bytes \<Rightarrow> bytes \<times> world \<times> ConnectionHandler" where
  "encrypt_message w st d =
     (case crypto_engine st of
        Some e \<Rightarrow>
          (let (nonce, w') = generate_random_bytes w (nonce_size e);
               (out, e') = CryptoEngine_encrypt (machine w) e nonce d
           in (out, w', st\<lparr>crypto_engine := Some e'\<rparr>))
      | None \<Rightarrow>
          (case crypto st of
             Some k \<Rightarrow>
               (let (nonce, w') = generate_random_bytes w NONCE_SIZE
                in (nonce @ ChaCha20Poly1305_encrypt k d nonce [], w', st))
           | None \<Rightarrow> (d, w, st)))"

definition decrypt_message ::
    "world \<Rightarrow> ConnectionHandler \<Rightarrow> bytes \<Rightarrow> (exn + bytes) \<times> ConnectionHandler" where
  "decrypt_message w st d =
     (case crypto_engine st of
        Some e \<Rightarrow>
          (case CryptoEngine_decrypt (machine w) e d of
             Inl x \<Rightarrow> (Inl x, st)
           | Inr (out, e') \<Rightarrow> (Inr out, st\<lparr>crypto_engine := Some e'\<rparr>))
      | None \<Rightarrow>
          (case crypto st of
             Some k \<Rightarrow>
               (if length d < NONCE_SIZE + TAG_SIZE
                then (Inl (CryptoException ''Encrypted message too short''), st)
                else let nonce = take NONCE_SIZE d;
                         encrypted_data = drop NONCE_SIZE d;
                         tag = drop (length encrypted_data - TAG_SIZE) encrypted_data
                     in (ChaCha20Poly1305_decrypt k encrypted_data nonce tag [], st))
           | None \<Rightarrow> (Inr d, st)))"

text \<open>
  \<open>send_message\<close>: serialize, encrypt when the handler holds an engine or the legacy
  cipher, write the 4-byte length (the bytes of the \<^verbatim>\<open>uint32_t\<close> in memory) and then the
  bytes. It returns the exception a send throws, if any.
\<close>

definition send_message ::
    "world \<Rightarrow> ConnectionHandler \<Rightarrow> Message \<Rightarrow> exn option \<times> world \<times> ConnectionHandler" where
  "send_message w st message =
     (let d = Message_serialize message;
          (d, w, st) = (if crypto_engine st \<noteq> None \<or> crypto st \<noteq> None
                        then encrypt_message w st d else (d, w, st))
      in case Socket_send (client_socket st) (store32 (of_nat (length d))) of
           Inl x \<Rightarrow> (Some x, w, st)
         | Inr sock \<Rightarrow>
             (if d = [] then (None, w, st\<lparr>client_socket := sock\<rparr>)
              else case Socket_send sock d of
                     Inl x \<Rightarrow> (Some x, w, st\<lparr>client_socket := sock\<rparr>)
                   | Inr sock' \<Rightarrow> (None, w, st\<lparr>client_socket := sock'\<rparr>)))"

text \<open>
  The loop \<^verbatim>\<open>while (total_received < length)\<close> of \<open>receive_message\<close>, with the bytes
  gathered so far.
\<close>

function receive_loop :: "Socket \<Rightarrow> nat \<Rightarrow> bytes \<Rightarrow> (exn + bytes) \<times> Socket" where
  "receive_loop sock remaining acc =
     (if remaining = 0 then (Inr acc, sock)
      else case Socket_receive sock remaining of
             Inl x \<Rightarrow> (Inl x, sock)
           | Inr (chunk, sock') \<Rightarrow> receive_loop sock' (remaining - length chunk) (acc @ chunk))"
  by pat_completeness auto
termination
  by (relation "measure (\<lambda>(sock, remaining, acc). remaining)")
     (auto simp: Socket_receive_def split: if_splits)

declare receive_loop.simps [simp del]

text \<open>
  \<open>receive_message\<close>. The first receive asks for the four bytes of \<open>length\<close>; when fewer
  arrive, the rest of the variable is what it held before, which is indeterminate.
\<close>

definition receive_message ::
    "world \<Rightarrow> ConnectionHandler \<Rightarrow> (exn + Message) \<times> ConnectionHandler" where
  "receive_message w st =
     (case Socket_receive (client_socket st) 4 of
        Inl x \<Rightarrow> (Inl x, st)
      | Inr (lb, sock) \<Rightarrow>
          (let len = load32 (lb @ drop (length lb) (store32 (uninit_u32 (indeterminate w)))) 0
           in case receive_loop sock (unat len) [] of
                (Inl x, sock') \<Rightarrow> (Inl x, st\<lparr>client_socket := sock'\<rparr>)
              | (Inr d, sock') \<Rightarrow>
                  (let st = st\<lparr>client_socket := sock'\<rparr>;
                       (r, st) = (if handshake_completed st
                                     \<and> (crypto_engine st \<noteq> None \<or> crypto st \<noteq> None)
                                  then decrypt_message w st d else (Inr d, st))
                   in (andThen r (Message_deserialize (indeterminate w)), st))))"


definition is_path_allowed :: "world \<Rightarrow> ConnectionHandler \<Rightarrow> string \<Rightarrow> bool" where
  "is_path_allowed w st path =
     (let native_path = convert_to_native_path path;
          normalized = normalize_path native_path
      in list_ex (\<lambda>allowed. is_path_safe (disk w) normalized allowed) (allowed_paths (config st)))"

definition resolve_path :: "string \<Rightarrow> exn + string" where
  "resolve_path path =
     (let native_path = convert_to_native_path path
      in if is_absolute_path native_path then Inr (normalize_path native_path)
         else Inl (FileException
                (''Relative paths are not allowed. All paths must be absolute. Path: '' @ path)))"

text \<open>
  The \<^verbatim>\<open>try\<close> block of \<open>handle_file_request\<close>: it returns the exception it ends with, if
  any, and the response, the world and the handler as it leaves them.
\<close>

definition file_request_try ::
    "world \<Rightarrow> ConnectionHandler \<Rightarrow> FileResponse \<Rightarrow> FileRequest
       \<Rightarrow> exn option \<times> FileResponse \<times> world \<times> ConnectionHandler" where
  "file_request_try w st response request =
     (if \<not> is_path_allowed w st (destination_path request)
      then (Some (FileException (''Access denied to path: '' @ destination_path request)),
            response, w, st)
      else case resolve_path (destination_path request) of
        Inl x \<Rightarrow> (Some x, response, w, st)
      | Inr resolved_path \<Rightarrow>
          (let resolved_path =
                 (if last resolved_path = CHR ''/'' \<or> last resolved_path = CHR 0x5C
                     \<or> is_directory (disk w) resolved_path
                  then join_path resolved_path (get_filename (source_path request))
                  else resolved_path);
               st = st\<lparr>current_file_path := resolved_path\<rparr>;
               probed = (if FileRequest.resume_offset request > 0
                         then get_partial_file_size (disk w) resolved_path else Inr 0)
           in case probed of
                Inl x \<Rightarrow> (Some x, response, w, st)
              | Inr current_size \<Rightarrow>
                  (let response = response\<lparr>FileResponse.resume_offset := current_size\<rparr>;
                       dir = get_directory resolved_path;
                       w = (if dir \<noteq> [] \<and> \<not> exists (disk w) dir
                            then w\<lparr>disk := snd (create_directories (disk w) dir)\<rparr> else w);
                       response = response\<lparr>FileResponse.success := True, file_size := 0\<rparr>
                   in (None, response, w, st))))"

definition handle_file_request ::
    "world \<Rightarrow> ConnectionHandler \<Rightarrow> FileRequest \<Rightarrow> exn option \<times> world \<times> ConnectionHandler" where
  "handle_file_request w st request =
     (let response = new_FileResponse (indeterminate w);
          (thrown, response, w, st) = file_request_try w st response request;
          response = (case thrown of
                        None \<Rightarrow> response
                      | Some x \<Rightarrow> response\<lparr>FileResponse.success := False,
                                             FileResponse.error_message := what x\<rparr>)
      in send_message w st (new_Message (FileResponseMsg response)))"

definition is_marker_file :: "string \<Rightarrow> bool" where
  "is_marker_file fname = (fname = ''.netcopy_dir_marker'' \<or> fname = ''.netcopy_empty_dir'')"

definition file_data_try ::
    "world \<Rightarrow> ConnectionHandler \<Rightarrow> FileAck \<Rightarrow> FileData \<Rightarrow> exn option \<times> FileAck \<times> world" where
  "file_data_try w st ack dat =
     (if current_file_path st = [] then (Some (runtime_error ''No file transfer in progress''), ack, w)
      else let (thrown, w) =
                 (if is_marker_file (get_filename (current_file_path st))
                  then let dir = get_directory (current_file_path st)
                       in (None, if dir \<noteq> [] \<and> \<not> exists (disk w) dir
                                 then w\<lparr>disk := snd (create_directories (disk w) dir)\<rparr> else w)
                  else let (thrown, fs) = write_file_chunk (disk w) (current_file_path st)
                                            (offset dat) (data dat)
                       in (thrown, w\<lparr>disk := fs\<rparr>))
           in case thrown of
                Some x \<Rightarrow> (Some x, ack, w)
              | None \<Rightarrow> (None, ack\<lparr>bytes_received := offset dat + of_nat (length (data dat)),
                                     FileAck.success := True\<rparr>, w))"

definition handle_file_data ::
    "world \<Rightarrow> ConnectionHandler \<Rightarrow> FileData \<Rightarrow> exn option \<times> world \<times> ConnectionHandler" where
  "handle_file_data w st dat =
     (let ack = new_FileAck (indeterminate w);
          (thrown, ack, w) = file_data_try w st ack dat;
          ack = (case thrown of
                   None \<Rightarrow> ack
                 | Some x \<Rightarrow> ack\<lparr>FileAck.success := False, FileAck.error_message := what x\<rparr>)
      in send_message w st (new_Message (FileAckMsg ack)))"

text \<open>The \<^verbatim>\<open>switch\<close> in the message loop of \<open>handle\<close>.\<close>

definition dispatch ::
    "world \<Rightarrow> ConnectionHandler \<Rightarrow> Message \<Rightarrow> exn option \<times> world \<times> ConnectionHandler" where
  "dispatch w st message =
     (if get_type message = FILE_REQUEST then
        (case body message of
           FileRequestMsg request \<Rightarrow> handle_file_request w st request
         | _ \<Rightarrow> (None, w, st))
      else if get_type message = FILE_DATA then
        (case body message of
           FileDataMsg dat \<Rightarrow> handle_file_data w st dat
         | _ \<Rightarrow> (None, w, st))
      else (None, w, st))"

text \<open>
  The message loop of \<open>handle\<close>: it ends with the exception that reaches the \<^verbatim>\<open>catch\<close> of
  \<open>handle\<close>, after which the handler is destroyed and the socket closed. Every round
  takes bytes from the socket, so the loop ends when the peer has closed.
\<close>

function message_loop :: "world \<Rightarrow> ConnectionHandler \<Rightarrow> exn \<times> world \<times> ConnectionHandler" where
  "message_loop w st =
     (case receive_message w st of
        (Inl x, st1) \<Rightarrow> (x, w, st1)
      | (Inr message, st1) \<Rightarrow>
          (case dispatch w st1 message of
             (Some x, w2, st2) \<Rightarrow> (x, w2, st2)
           | (None, w2, st2) \<Rightarrow> message_loop w2 st2))"
  by pat_completeness auto

lemma inbox_encrypt_message:
  "encrypt_message w st d = (c, w', st') \<Longrightarrow> client_socket st' = client_socket st"
  by (auto simp: encrypt_message_def Let_def split: option.splits prod.splits)

lemma inbox_send_message:
  "send_message w st m = (r, w', st') \<Longrightarrow> inbox (client_socket st') = inbox (client_socket st)"
  by (auto simp: send_message_def Let_def Socket_send_def
      split: if_splits sum.splits prod.splits dest!: inbox_encrypt_message)

lemma inbox_file_request_try:
  "file_request_try w st resp req = (t, resp', w', st') \<Longrightarrow> client_socket st' = client_socket st"
  by (auto simp: file_request_try_def Let_def split: if_splits sum.splits)

lemma inbox_dispatch:
  "dispatch w st m = (r, w', st') \<Longrightarrow> inbox (client_socket st') = inbox (client_socket st)"
  by (auto simp: dispatch_def handle_file_request_def handle_file_data_def Let_def
      split: if_splits Payload.splits prod.splits
      dest!: inbox_send_message inbox_file_request_try)

lemma inbox_receive_loop:
  "receive_loop sock n acc = (r, sock') \<Longrightarrow> length (inbox sock') \<le> length (inbox sock)"
proof (induction sock n acc rule: receive_loop.induct)
  case (1 sock remaining acc)
  show ?case
  proof (cases "remaining = 0")
    case True
    then show ?thesis using "1.prems" by (simp add: receive_loop.simps)
  next
    case False
    show ?thesis
    proof (cases "Socket_receive sock remaining")
      case (Inl x)
      then show ?thesis using "1.prems" False by (simp add: receive_loop.simps)
    next
      case (Inr v)
      obtain chunk sock1 where v: "v = (chunk, sock1)" by (cases v)
      have "receive_loop sock1 (remaining - length chunk) (acc @ chunk) = (r, sock')"
        using "1.prems" False Inr v by (simp add: receive_loop.simps)
      from "1.IH" [OF False Inr v [symmetric] this]
      have "length (inbox sock') \<le> length (inbox sock1)" .
      moreover have "length (inbox sock1) \<le> length (inbox sock)"
        using Inr v by (auto simp: Socket_receive_def split: if_splits)
      ultimately show ?thesis by simp
    qed
  qed
qed

lemma inbox_decrypt_message:
  "decrypt_message w st d = (r, st') \<Longrightarrow> client_socket st' = client_socket st"
  by (auto simp: decrypt_message_def Let_def split: option.splits sum.splits if_splits)

lemma inbox_receive_message:
  assumes "receive_message w st = (Inr m, st')"
  shows "length (inbox (client_socket st')) < length (inbox (client_socket st))"
proof -
  obtain lb sock where r: "Socket_receive (client_socket st) 4 = Inr (lb, sock)"
    using assms by (auto simp: receive_message_def split: sum.splits)
  have l1: "length (inbox sock) < length (inbox (client_socket st))"
    using r by (auto simp: Socket_receive_def split: if_splits)
  define len where "len = load32 (lb @ drop (length lb) (store32 (uninit_u32 (indeterminate w)))) 0"
  obtain d sock' where rl: "receive_loop sock (unat len) [] = (Inr d, sock')"
    using assms r
    by (auto simp: receive_message_def Let_def len_def split: sum.splits prod.splits)
  have l2: "length (inbox sock') \<le> length (inbox sock)" by (rule inbox_receive_loop [OF rl])
  have "client_socket st' = sock'"
    using assms r rl
    by (auto simp: receive_message_def Let_def len_def split: if_splits prod.splits
        dest!: inbox_decrypt_message)
  then show ?thesis using l1 l2 by simp
qed

termination message_loop
proof (relation "measure (\<lambda>(w, st). length (inbox (client_socket st)))")
  show "wf (measure (\<lambda>(w, st). length (inbox (client_socket st))))" by simp
next
  fix w st x1 st1 message x2 w2 y2 st2 opt
  assume a: "(x1, st1) = receive_message w st" "x1 = Inr message"
     and b: "(opt, y2) = dispatch w st1 message" "(w2, st2) = y2" "opt = None"
  have "length (inbox (client_socket st1)) < length (inbox (client_socket st))"
    using inbox_receive_message [of w st message st1] a by simp
  moreover have "inbox (client_socket st2) = inbox (client_socket st1)"
    using inbox_dispatch [of w st1 message opt w2 st2] b by simp
  ultimately show "((w2, st2), (w, st)) \<in> measure (\<lambda>(w, st). length (inbox (client_socket st)))"
    by simp
qed

declare message_loop.simps [simp del]


section \<open>Frames, ciphers held and example sessions\<close>

text \<open>A frame on the wire: the 4-byte length, then the bytes.\<close>

definition frame :: "bytes \<Rightarrow> bytes" where
  "frame d = store32 (of_nat (length d)) @ d"

definition holds_cipher :: "ConnectionHandler \<Rightarrow> bool" where
  "holds_cipher st \<longleftrightarrow> crypto_engine st \<noteq> None \<or> crypto st \<noteq> None"

text \<open>
  A server that asks for no authentication and allows \<^verbatim>\<open>/tmp/out\<close>, a disk that holds the
  directories \<^verbatim>\<open>/tmp\<close> and \<^verbatim>\<open>/tmp/out\<close> and has no links (canonical paths are the paths
  themselves), and a handler on that server past its handshake, with the given bytes to
  read and the given bytes already written.
\<close>

definition example_config :: ServerConfig where
  "example_config = \<lparr>require_auth = False, secret_key = [], allowed_paths = [''/tmp/out'']\<rparr>"

definition example_disk :: filesystem where
  "example_disk =
     \<lparr>nodes = [[''tmp''] \<mapsto> Dir, [''tmp'', ''out''] \<mapsto> Dir], cwd = [],
      weakly_canonical = (\<lambda>p. Some p)\<rparr>"

definition example_world :: world where
  "example_world =
     \<lparr>disk = example_disk, random_device = (\<lambda>i. 0), drawn = 0,
      indeterminate = \<lparr>uninit_bool = False, uninit_u32 = 0, uninit_u64 = 0\<rparr>,
      machine = software_platform\<rparr>"

definition example_handler :: "bytes \<Rightarrow> bytes \<Rightarrow> ConnectionHandler" where
  "example_handler i out =
     (new_ConnectionHandler \<lparr>inbox = i, outbox = out, writable = True\<rparr> example_config None)
       \<lparr>handshake_completed := True\<rparr>"

definition example_chunk :: FileData where
  "example_chunk =
     \<lparr>offset = 0, data = [0x41, 0x42, 0x43], is_last_chunk = True, compressed = False\<rparr>"

definition example_data :: Message where
  "example_data = new_Message (FileDataMsg example_chunk)"

definition no_transfer_ack :: Message where
  "no_transfer_ack =
     new_Message (FileAckMsg \<lparr>bytes_received = 0, success = False,
                              error_message = ''No file transfer in progress''\<rparr>)"









text \<open>
  The example disk with a regular file \<^verbatim>\<open>/tmp/out/f\<close>, and a handler whose current file is
  the marker of a directory below that file.
\<close>

definition blocked_world :: world where
  "blocked_world =
     example_world\<lparr>disk := example_disk\<lparr>nodes :=
        (nodes example_disk)([''tmp'', ''out'', ''f''] \<mapsto> File [0x41])\<rparr>\<rparr>"


text \<open>A request to resume the transfer of \<^verbatim>\<open>f\<close> to \<^verbatim>\<open>/tmp/out/f\<close>.\<close>

definition example_resume :: FileRequest where
  "example_resume =
     \<lparr>source_path = ''f'', destination_path = ''/tmp/out/f'', recursive = False,
      resume_offset = 7\<rparr>"



section \<open>Lexical containment\<close>



section \<open>Verification: the wire codec\<close>

lemma mask8: "(0xFF :: 'a::len word) = mask 8"
  by (simp add: mask_eq_exp_minus_1)

lemma byte_back: "(ucast (ucast (drop_bit n v AND 0xFF :: 'a::len word) :: byte) :: 'a word) = take_bit 8 (drop_bit n v)"
  by (rule bit_word_eqI) (auto simp: mask8 bit_simps)

lemma byte_back0: "(ucast (ucast (v AND 0xFF :: 'a::len word) :: byte) :: 'a word) = take_bit 8 v"
  using byte_back [of 0 v] by simp

lemma le32_roundtrip:
  "(ucast (ucast (v AND 0xFF) :: byte) :: 32 word)
     OR push_bit 8 (ucast (ucast (drop_bit 8 v AND 0xFF) :: byte))
     OR push_bit 16 (ucast (ucast (drop_bit 16 v AND 0xFF) :: byte))
     OR push_bit 24 (ucast (ucast (drop_bit 24 v AND 0xFF) :: byte)) = v" (is "?l = v")
proof (rule bit_word_eqI)
  fix n assume "n < LENGTH(32)"
  then have n: "n < 32" by simp
  consider "n < 8" | "8 \<le> n" "n < 16" | "16 \<le> n" "n < 24" | "24 \<le> n" "n < 32"
    using n by linarith
  then show "bit ?l n = bit v n"
    by cases (auto simp: byte_back byte_back0 bit_simps)
qed

lemma le64_roundtrip:
  "fold (\<lambda>i a. a OR push_bit (i * 8) (ucast (ucast (drop_bit (i * 8) v AND 0xFF) :: byte))) [0..<8] (0 :: 64 word) = v"
  (is "?l = v")
proof (rule bit_word_eqI)
  fix n assume "n < LENGTH(64)"
  then have n: "n < 64" by simp
  have e: "[0..<8] = [0,1,2,3,4,5,6,7::nat]" by (simp add: upt_rec numeral_nat)
  consider "n < 8" | "8 \<le> n" "n < 16" | "16 \<le> n" "n < 24" | "24 \<le> n" "n < 32"
    | "32 \<le> n" "n < 40" | "40 \<le> n" "n < 48" | "48 \<le> n" "n < 56" | "56 \<le> n" "n < 64"
    using n by linarith
  then show "bit ?l n = bit v n"
    unfolding e by cases (auto simp: byte_back byte_back0 bit_simps)
qed

lemma write_uint32_append: "write_uint32 b v = b @ write_uint32 [] v"
  by (simp add: write_uint32_def)

lemma write_uint64_append: "write_uint64 b v = b @ write_uint64 [] v"
  by (simp add: write_uint64_def)

lemma write_string_append: "write_string b s = b @ write_string [] s"
  by (simp add: write_string_def write_uint32_def)

lemma write_bytes_append: "write_bytes b s = b @ write_bytes [] s"
  by (simp add: write_bytes_def write_uint32_def)

lemma length_write_uint32: "length (write_uint32 [] v) = 4"
  by (simp add: write_uint32_def)

lemma length_write_uint64: "length (write_uint64 [] v) = 8"
  by (simp add: write_uint64_def)

lemma length_write_string: "length (write_string [] s) = 4 + length s"
  by (simp add: write_string_def write_uint32_def string_bytes_def)

lemma length_write_bytes: "length (write_bytes [] s) = 4 + length s"
  by (simp add: write_bytes_def write_uint32_def)

lemma drop_len: "drop n buf = xs @ post \<Longrightarrow> 0 < length xs \<Longrightarrow> n + length xs \<le> length buf"
proof -
  assume a: "drop n buf = xs @ post" and p: "0 < length xs"
  have "length (drop n buf) = length xs + length post" using a by simp
  then have "length buf - n = length xs + length post" by simp
  then show ?thesis using p by (cases xs) auto
qed

lemma drop_nth: "drop n buf = xs @ post \<Longrightarrow> i < length xs \<Longrightarrow> buf ! (n + i) = xs ! i"
proof -
  assume a: "drop n buf = xs @ post" and i: "i < length xs"
  from drop_len [OF a] i have l: "n + length xs \<le> length buf" by (cases xs) auto
  then have "drop n buf ! i = buf ! (n + i)" by simp
  then show ?thesis using a i by (simp add: nth_append)
qed

lemma read_uint32_drop:
  assumes "drop n buf = write_uint32 [] v @ post"
  shows "read_uint32 buf n = Inr (v, n + 4)"
proof -
  let ?xs = "write_uint32 [] v"
  have l: "n + 4 \<le> length buf" using drop_len [OF assms] by (simp add: length_write_uint32)
  have n: "buf ! (n + i) = ?xs ! i" if "i < 4" for i
    using drop_nth [OF assms, of i] that by (simp add: write_uint32_def)
  have "buf ! n = ?xs ! 0" "buf ! (n + 1) = ?xs ! 1" "buf ! (n + 2) = ?xs ! 2" "buf ! (n + 3) = ?xs ! 3"
    using n [of 0] n [of 1] n [of 2] n [of 3] by simp_all
  then show ?thesis using l
    by (simp add: read_uint32_def write_uint32_def le32_roundtrip)
qed

lemma read_uint64_drop:
  assumes "drop n buf = write_uint64 [] v @ post"
  shows "read_uint64 buf n = Inr (v, n + 8)"
proof -
  let ?xs = "write_uint64 [] v"
  have l: "n + 8 \<le> length buf" using drop_len [OF assms] by (simp add: length_write_uint64)
  have n: "buf ! (n + i) = ucast (drop_bit (i * 8) v AND 0xFF)" if "i < 8" for i
    using drop_nth [OF assms, of i] that by (simp add: write_uint64_def)
  have "fold (\<lambda>i a. a OR push_bit (i * 8) (ucast (buf ! (n + i)))) [0..<8] (0 :: 64 word)
      = fold (\<lambda>i a. a OR push_bit (i * 8) (ucast (ucast (drop_bit (i * 8) v AND 0xFF) :: byte))) [0..<8] (0 :: 64 word)"
    by (rule fold_cong) (simp_all add: n)
  then show ?thesis using l
    by (simp add: read_uint64_def le64_roundtrip)
qed

lemma bytes_string_inverse: "bytes_string (string_bytes s) = s"
  by (induction s) (simp_all add: bytes_string_def string_bytes_def unat_of_nat)

lemma unat_len32: "n < 2 ^ 32 \<Longrightarrow> unat (of_nat n :: 32 word) = n"
  by (simp add: unat_of_nat)

lemma read_string_drop:
  assumes "drop n buf = write_string [] s @ post" and "length s < 2 ^ 32"
  shows "read_string buf n = Inr (s, n + 4 + length s)"
proof -
  have d: "drop n buf = write_uint32 [] (of_nat (length s)) @ (string_bytes s @ post)"
    using assms(1) by (simp add: write_string_def)
  have r: "read_uint32 buf n = Inr (of_nat (length s), n + 4)"
    by (rule read_uint32_drop [OF d])
  have d2: "drop (n + 4) buf = string_bytes s @ post"
  proof -
    have "drop (n + 4) buf = drop 4 (drop n buf)" by (simp add: add.commute)
    then show ?thesis using d by (simp add: write_uint32_def)
  qed
  have l: "n + 4 + length s \<le> length buf"
    using drop_len [OF assms(1)] by (simp add: length_write_string add.assoc)
  have "take (length s) (drop (n + 4) buf) = string_bytes s"
    using d2 by (simp add: string_bytes_def)
  then show ?thesis using r l assms(2)
    by (simp add: read_string_def andThen_def unat_len32 bytes_string_inverse)
qed

lemma read_bytes_drop:
  assumes "drop n buf = write_bytes [] s @ post" and "length s < 2 ^ 32"
  shows "read_bytes buf n = Inr (s, n + 4 + length s)"
proof -
  have d: "drop n buf = write_uint32 [] (of_nat (length s)) @ (s @ post)"
    using assms(1) by (simp add: write_bytes_def)
  have r: "read_uint32 buf n = Inr (of_nat (length s), n + 4)"
    by (rule read_uint32_drop [OF d])
  have d2: "drop (n + 4) buf = s @ post"
  proof -
    have "drop (n + 4) buf = drop 4 (drop n buf)" by (simp add: add.commute)
    then show ?thesis using d by (simp add: write_uint32_def)
  qed
  have l: "n + 4 + length s \<le> length buf"
    using drop_len [OF assms(1)] by (simp add: length_write_bytes add.assoc)
  have "take (length s) (drop (n + 4) buf) = s"
    using d2 by simp
  then show ?thesis using r l assms(2)
    by (simp add: read_bytes_def andThen_def unat_len32)
qed

lemma flag_drop:
  assumes "drop n buf = b # post"
  shows "n < length buf" and "buf ! n = b"
proof -
  have a: "drop n buf = [b] @ post" using assms by simp
  show "n < length buf" using drop_len [OF a] by simp
  show "buf ! n = b" using drop_nth [OF a, of 0] by simp
qed

lemma bool_byte_nonzero: "(bool_byte b \<noteq> 0) = b"
  by (simp add: bool_byte_def)

lemmas wr_len = length_write_uint32 length_write_uint64 length_write_string length_write_bytes

lemma HandshakeRequest_payload_roundtrip:
  assumes "length (client_version m) < 2 ^ 32" "length (client_nonce m) < 2 ^ 32"
  shows "HandshakeRequest_deserialize_payload this (HandshakeRequest_serialize_payload m) = Inr m"
proof -
  let ?d = "HandshakeRequest_serialize_payload m"
  have d: "?d = write_string [] (client_version m) @ write_bytes [] (client_nonce m) @ [security_level m]"
    by (simp add: HandshakeRequest_serialize_payload_def write_bytes_append [of "write_string [] (client_version m)"])
  have r1: "read_string ?d 0 = Inr (client_version m, 0 + 4 + length (client_version m))"
    using assms
    by (intro read_string_drop [where post = "write_bytes [] (client_nonce m) @ [security_level m]"])
       (simp_all add: d)
  have r2: "read_bytes ?d (4 + length (client_version m))
      = Inr (client_nonce m, 4 + length (client_version m) + 4 + length (client_nonce m))"
    using assms
    by (intro read_bytes_drop [where post = "[security_level m]"])
       (simp_all add: d wr_len)
  have f: "drop (4 + length (client_version m) + 4 + length (client_nonce m)) ?d = security_level m # []"
    by (simp add: d wr_len)
  show ?thesis
    using r1 r2 flag_drop [OF f]
    by (simp add: HandshakeRequest_deserialize_payload_def andThen_def add.assoc)
qed

lemma HandshakeResponse_payload_roundtrip:
  assumes "length (server_version m) < 2 ^ 32" "length (server_nonce m) < 2 ^ 32"
  shows "HandshakeResponse_deserialize_payload this (HandshakeResponse_serialize_payload m) = Inr m"
proof -
  let ?d = "HandshakeResponse_serialize_payload m"
  let ?k = "4 + length (server_version m) + 4 + length (server_nonce m)"
  have d: "?d = write_string [] (server_version m) @ write_bytes [] (server_nonce m)
                  @ [bool_byte (authentication_required m), accepted_security_level m]"
    by (simp add: HandshakeResponse_serialize_payload_def
          write_bytes_append [of "write_string [] (server_version m)"])
  have r1: "read_string ?d 0 = Inr (server_version m, 0 + 4 + length (server_version m))"
    using assms
    by (intro read_string_drop [where post = "write_bytes [] (server_nonce m)
          @ [bool_byte (authentication_required m), accepted_security_level m]"])
       (simp_all add: d)
  have r2: "read_bytes ?d (4 + length (server_version m)) = Inr (server_nonce m, ?k)"
    using assms
    by (intro read_bytes_drop [where post = "[bool_byte (authentication_required m),
          accepted_security_level m]"])
       (simp_all add: d wr_len)
  have f: "drop ?k ?d = bool_byte (authentication_required m) # [accepted_security_level m]"
    by (simp add: d wr_len)
  have g: "drop (?k + 1) ?d = accepted_security_level m # []"
    by (simp add: d wr_len)
  show ?thesis
    using r1 r2 flag_drop [OF f] flag_drop [OF g]
    by (simp add: HandshakeResponse_deserialize_payload_def andThen_def add.assoc
          bool_byte_nonzero)
qed

lemma FileRequest_payload_roundtrip:
  assumes "length (source_path m) < 2 ^ 32" "length (destination_path m) < 2 ^ 32"
  shows "FileRequest_deserialize_payload this (FileRequest_serialize_payload m) = Inr m"
proof -
  let ?d = "FileRequest_serialize_payload m"
  let ?k = "4 + length (source_path m) + 4 + length (destination_path m)"
  have d: "?d = write_string [] (source_path m) @ write_string [] (destination_path m)
                  @ [bool_byte (recursive m)] @ write_uint64 [] (FileRequest.resume_offset m)"
    by (simp add: FileRequest_serialize_payload_def
          write_string_append [of "write_string [] (source_path m)"]
          write_uint64_append [of "_ @ _"])
  have r1: "read_string ?d 0 = Inr (source_path m, 0 + 4 + length (source_path m))"
    using assms
    by (intro read_string_drop [where post = "write_string [] (destination_path m)
                  @ [bool_byte (recursive m)] @ write_uint64 [] (FileRequest.resume_offset m)"])
       (simp_all add: d)
  have r2: "read_string ?d (4 + length (source_path m)) = Inr (destination_path m, ?k)"
    using assms
    by (intro read_string_drop [where post = "[bool_byte (recursive m)]
          @ write_uint64 [] (FileRequest.resume_offset m)"])
       (simp_all add: d wr_len)
  have f: "drop ?k ?d = bool_byte (recursive m) # write_uint64 [] (FileRequest.resume_offset m)"
    by (simp add: d wr_len)
  have r3: "read_uint64 ?d (?k + 1) = Inr (FileRequest.resume_offset m, ?k + 1 + 8)"
    by (intro read_uint64_drop [where post = "[]"]) (simp add: d wr_len)
  show ?thesis
    using r1 r2 r3 flag_drop [OF f]
    by (simp add: FileRequest_deserialize_payload_def andThen_def add.assoc bool_byte_nonzero)
qed

lemma FileResponse_payload_roundtrip:
  assumes "length (FileResponse.error_message m) < 2 ^ 32"
  shows "FileResponse_deserialize_payload this (FileResponse_serialize_payload m) = Inr m"
proof -
  let ?d = "FileResponse_serialize_payload m"
  let ?k = "1 + 4 + length (FileResponse.error_message m)"
  have d: "?d = bool_byte (FileResponse.success m) # write_string [] (FileResponse.error_message m)
                  @ write_uint64 [] (file_size m) @ write_uint64 [] (FileResponse.resume_offset m)"
    by (simp add: FileResponse_serialize_payload_def
          write_string_append [of "[_]"]
          write_uint64_append [of "_ @ _"] write_uint64_append [of "_ # _"])
  have f: "drop 0 ?d = bool_byte (FileResponse.success m) # (write_string [] (FileResponse.error_message m)
                  @ write_uint64 [] (file_size m) @ write_uint64 [] (FileResponse.resume_offset m))"
    by (simp add: d)
  have r1: "read_string ?d 1 = Inr (FileResponse.error_message m, ?k)"
    using assms
    by (intro read_string_drop [where post = "write_uint64 [] (file_size m)
          @ write_uint64 [] (FileResponse.resume_offset m)"])
       (simp_all add: d drop_Cons')
  have r2: "read_uint64 ?d ?k = Inr (file_size m, ?k + 8)"
    by (intro read_uint64_drop [where post = "write_uint64 [] (FileResponse.resume_offset m)"])
       (simp add: d wr_len drop_Cons')
  have r3: "read_uint64 ?d (?k + 8) = Inr (FileResponse.resume_offset m, ?k + 8 + 8)"
    by (intro read_uint64_drop [where post = "[]"]) (simp add: d wr_len drop_Cons')
  show ?thesis
    using r1 r2 r3 flag_drop [OF f]
    by (simp add: FileResponse_deserialize_payload_def andThen_def add.assoc bool_byte_nonzero)
qed

lemma FileData_payload_roundtrip:
  assumes "length (data m) < 2 ^ 32"
  shows "FileData_deserialize_payload this (FileData_serialize_payload m)
           = Inr (m\<lparr>compressed := compressed this\<rparr>)"
proof -
  let ?d = "FileData_serialize_payload m"
  let ?k = "8 + 4 + length (data m)"
  have d: "?d = write_uint64 [] (offset m) @ write_bytes [] (data m) @ [bool_byte (is_last_chunk m)]"
    by (simp add: FileData_serialize_payload_def write_bytes_append [of "write_uint64 [] (offset m)"])
  have r1: "read_uint64 ?d 0 = Inr (offset m, 0 + 8)"
    by (intro read_uint64_drop [where post = "write_bytes [] (data m) @ [bool_byte (is_last_chunk m)]"])
       (simp add: d)
  have r2: "read_bytes ?d 8 = Inr (data m, ?k)"
    using assms
    by (intro read_bytes_drop [where post = "[bool_byte (is_last_chunk m)]"])
       (simp_all add: d wr_len)
  have f: "drop ?k ?d = bool_byte (is_last_chunk m) # []"
    by (simp add: d wr_len)
  show ?thesis
    using r1 r2 flag_drop [OF f]
    by (simp add: FileData_deserialize_payload_def andThen_def add.assoc bool_byte_nonzero)
qed

lemma FileAck_payload_roundtrip:
  assumes "length (FileAck.error_message m) < 2 ^ 32"
  shows "FileAck_deserialize_payload this (FileAck_serialize_payload m) = Inr m"
proof -
  let ?d = "FileAck_serialize_payload m"
  have d: "?d = write_uint64 [] (bytes_received m) @ [bool_byte (FileAck.success m)]
                  @ write_string [] (FileAck.error_message m)"
    by (simp add: FileAck_serialize_payload_def write_string_append [of "_ @ _"])
  have r1: "read_uint64 ?d 0 = Inr (bytes_received m, 0 + 8)"
    by (intro read_uint64_drop [where post = "[bool_byte (FileAck.success m)]
                  @ write_string [] (FileAck.error_message m)"])
       (simp add: d)
  have f: "drop 8 ?d = bool_byte (FileAck.success m) # write_string [] (FileAck.error_message m)"
    by (simp add: d wr_len)
  have r2: "read_string ?d (8 + 1) = Inr (FileAck.error_message m, 8 + 1 + 4 + length (FileAck.error_message m))"
    using assms
    by (intro read_string_drop [where post = "[]"]) (simp_all add: d wr_len)
  show ?thesis
    using r1 r2 flag_drop [OF f]
    by (simp add: FileAck_deserialize_payload_def andThen_def add.assoc bool_byte_nonzero)
qed

lemma ErrorMessage_payload_roundtrip:
  assumes "length (error_description m) < 2 ^ 32"
  shows "ErrorMessage_deserialize_payload this (ErrorMessage_serialize_payload m) = Inr m"
proof -
  let ?d = "ErrorMessage_serialize_payload m"
  have d: "?d = write_uint32 [] (error_code m) @ write_string [] (error_description m)"
    by (simp add: ErrorMessage_serialize_payload_def
          write_string_append [of "write_uint32 [] (error_code m)"])
  have r1: "read_uint32 ?d 0 = Inr (error_code m, 0 + 4)"
    by (intro read_uint32_drop [where post = "write_string [] (error_description m)"])
       (simp add: d)
  have r2: "read_string ?d 4 = Inr (error_description m, 4 + 4 + length (error_description m))"
    using assms
    by (intro read_string_drop [where post = "[]"]) (simp_all add: d wr_len)
  show ?thesis
    using r1 r2
    by (simp add: ErrorMessage_deserialize_payload_def andThen_def)
qed

lemma MessageHeader_roundtrip:
  "MessageHeader_deserialize (MessageHeader_serialize h @ post) = Inr h"
proof -
  let ?d = "MessageHeader_serialize h @ post"
  have d: "?d = write_uint32 [] (type h) @ write_uint32 [] (payload_length h)
       @ write_uint32 [] (MessageHeader.sequence_number h) @ write_uint32 [] (reserved h) @ post"
    by (simp add: MessageHeader_serialize_def write_uint32_append [of "write_uint32 _ _"]
          write_uint32_append [of "_ @ _"])
  have r1: "read_uint32 ?d 0 = Inr (type h, 0 + 4)"
    by (intro read_uint32_drop [where post = "write_uint32 [] (payload_length h)
       @ write_uint32 [] (MessageHeader.sequence_number h) @ write_uint32 [] (reserved h) @ post"])
       (simp add: d)
  have r2: "read_uint32 ?d 4 = Inr (payload_length h, 4 + 4)"
    by (intro read_uint32_drop [where post = "write_uint32 [] (MessageHeader.sequence_number h)
       @ write_uint32 [] (reserved h) @ post"])
       (simp add: d wr_len)
  have r3: "read_uint32 ?d 8 = Inr (MessageHeader.sequence_number h, 8 + 4)"
    by (intro read_uint32_drop [where post = "write_uint32 [] (reserved h) @ post"])
       (simp add: d wr_len)
  have r4: "read_uint32 ?d 12 = Inr (reserved h, 12 + 4)"
    by (intro read_uint32_drop [where post = "post"])
       (simp add: d wr_len)
  have l: "length ?d \<ge> 16" by (simp add: d wr_len)
  show ?thesis
    using r1 r2 r3 r4 l
    by (simp add: MessageHeader_deserialize_def MessageHeader_SIZE_def andThen_def)
qed

lemma length_MessageHeader_serialize: "length (MessageHeader_serialize h) = 16"
  by (simp add: MessageHeader_serialize_def write_uint32_def)

subsection \<open>Whole messages\<close>

lemmas kinds = HANDSHAKE_REQUEST_def HANDSHAKE_RESPONSE_def FILE_REQUEST_def FILE_RESPONSE_def
  FILE_DATA_def FILE_ACK_def ERROR_MESSAGE_def

lemma Message_roundtrip:
  assumes "valid_message m"
  shows "Message_deserialize u (Message_serialize m)
    = Inr \<lparr>header = (header m)\<lparr>payload_length := of_nat (length (serialize_payload (body m)))\<rparr>,
           body = decoded_payload u (body m)\<rparr>"
proof -
  let ?p = "serialize_payload (body m)"
  let ?h = "(header m)\<lparr>payload_length := of_nat (length ?p)\<rparr>"
  have s: "Message_serialize m = MessageHeader_serialize ?h @ ?p"
    by (simp add: Message_serialize_def Let_def)
  have h: "MessageHeader_deserialize (Message_serialize m) = Inr ?h"
    unfolding s by (rule MessageHeader_roundtrip)
  have len: "unat (of_nat (length ?p) :: 32 word) = length ?p"
    using assms by (simp add: valid_message_def unat_of_nat)
  have t: "take (length ?p) (drop 16 (Message_serialize m)) = ?p"
    by (simp add: s length_MessageHeader_serialize)
  have l: "length (Message_serialize m) = 16 + length ?p"
    by (simp add: s length_MessageHeader_serialize)
  have ty: "type (header m) = kind_of (body m)" and vp: "valid_payload (body m)"
    using assms by (simp_all add: valid_message_def)
  show ?thesis
  proof (cases "body m")
    case (HandshakeRequestMsg x)
    then show ?thesis using h len t l ty vp
      by (simp add: Message_deserialize_def MessageHeader_SIZE_def andThen_def Let_def kinds
            lift_payload_def HandshakeRequest_payload_roundtrip)
  next
    case (HandshakeResponseMsg x)
    then show ?thesis using h len t l ty vp
      by (simp add: Message_deserialize_def MessageHeader_SIZE_def andThen_def Let_def kinds
            lift_payload_def HandshakeResponse_payload_roundtrip)
  next
    case (FileRequestMsg x)
    then show ?thesis using h len t l ty vp
      by (simp add: Message_deserialize_def MessageHeader_SIZE_def andThen_def Let_def kinds
            lift_payload_def FileRequest_payload_roundtrip)
  next
    case (FileResponseMsg x)
    then show ?thesis using h len t l ty vp
      by (simp add: Message_deserialize_def MessageHeader_SIZE_def andThen_def Let_def kinds
            lift_payload_def FileResponse_payload_roundtrip)
  next
    case (FileDataMsg x)
    then show ?thesis using h len t l ty vp
      by (simp add: Message_deserialize_def MessageHeader_SIZE_def andThen_def Let_def kinds
            lift_payload_def FileData_payload_roundtrip new_FileData_def)
  next
    case (FileAckMsg x)
    then show ?thesis using h len t l ty vp
      by (simp add: Message_deserialize_def MessageHeader_SIZE_def andThen_def Let_def kinds
            lift_payload_def FileAck_payload_roundtrip)
  next
    case (ErrorMessageMsg x)
    then show ?thesis using h len t l ty vp
      by (simp add: Message_deserialize_def MessageHeader_SIZE_def andThen_def Let_def kinds
            lift_payload_def ErrorMessage_payload_roundtrip)
  qed
qed

section \<open>Properties of the message codec\<close>

text \<open>
  C10. A HandshakeRequest payload that stops after the nonce, and a HandshakeResponse
  payload that stops after the authentication flag, are decoded without error, and the
  security level of the decoded message is the default \<open>HIGH\<close>; the same holds for the
  whole frame given to \<open>Message_deserialize\<close>.
\<close>

theorem handshake_without_level_is_HIGH:
  assumes "length v + length n + 9 < 2 ^ 32"
  shows "HandshakeRequest_deserialize_payload new_HandshakeRequest
           (write_bytes (write_string [] v) n)
         = Inr \<lparr>client_version = v, client_nonce = n, security_level = HIGH\<rparr>
       \<and> HandshakeResponse_deserialize_payload (new_HandshakeResponse u)
           (write_bytes (write_string [] v) n @ [bool_byte a])
         = Inr \<lparr>server_version = v, server_nonce = n, authentication_required = a,
                accepted_security_level = HIGH\<rparr>
       \<and> Message_deserialize u
           (MessageHeader_serialize
              \<lparr>type = HANDSHAKE_REQUEST,
               payload_length = of_nat (length (write_bytes (write_string [] v) n)),
               MessageHeader.sequence_number = sq, reserved = rs\<rparr>
            @ write_bytes (write_string [] v) n)
         = Inr \<lparr>header = \<lparr>type = HANDSHAKE_REQUEST,
                           payload_length = of_nat (length (write_bytes (write_string [] v) n)),
                           MessageHeader.sequence_number = sq, reserved = rs\<rparr>,
                body = HandshakeRequestMsg
                         \<lparr>client_version = v, client_nonce = n, security_level = HIGH\<rparr>\<rparr>"
proof -
  let ?p = "write_bytes (write_string [] v) n"
  let ?q = "?p @ [bool_byte a]"
  have lv: "length v < 2 ^ 32" and ln: "length n < 2 ^ 32" using assms by simp_all
  have p: "?p = write_string [] v @ write_bytes [] n"
    by (simp add: write_bytes_append [of "write_string [] v"])
  have lp: "length ?p = 8 + length v + length n"
    by (simp add: p wr_len)
  have r1: "read_string ?p 0 = Inr (v, 0 + 4 + length v)"
    using lv by (intro read_string_drop [where post = "write_bytes [] n"]) (simp_all add: p)
  have r2: "read_bytes ?p (4 + length v) = Inr (n, 4 + length v + 4 + length n)"
    using ln by (intro read_bytes_drop [where post = "[]"]) (simp_all add: p wr_len)
  have req: "HandshakeRequest_deserialize_payload new_HandshakeRequest ?p
      = Inr \<lparr>client_version = v, client_nonce = n, security_level = HIGH\<rparr>"
    using r1 r2 lp
    by (simp add: HandshakeRequest_deserialize_payload_def andThen_def new_HandshakeRequest_def)
  have q1: "read_string ?q 0 = Inr (v, 0 + 4 + length v)"
    using lv
    by (intro read_string_drop [where post = "write_bytes [] n @ [bool_byte a]"])
       (simp_all add: p)
  have q2: "read_bytes ?q (4 + length v) = Inr (n, 4 + length v + 4 + length n)"
    using ln by (intro read_bytes_drop [where post = "[bool_byte a]"]) (simp_all add: p wr_len)
  have f: "drop (4 + length v + 4 + length n) ?q = bool_byte a # []"
    by (simp add: p wr_len)
  have lq: "length ?q = 9 + length v + length n"
    by (simp add: p wr_len)
  have resp: "HandshakeResponse_deserialize_payload (new_HandshakeResponse u) ?q
      = Inr \<lparr>server_version = v, server_nonce = n, authentication_required = a,
             accepted_security_level = HIGH\<rparr>"
    using q1 q2 flag_drop [OF f] lq
    by (simp add: HandshakeResponse_deserialize_payload_def andThen_def
          new_HandshakeResponse_def bool_byte_nonzero)
  let ?h = "\<lparr>type = HANDSHAKE_REQUEST, payload_length = of_nat (length ?p),
             MessageHeader.sequence_number = sq, reserved = rs\<rparr>"
  have lt: "length ?p < 2 ^ 32" using assms by (simp add: lp)
  have len: "unat (of_nat (length ?p) :: 32 word) = length ?p"
    by (rule unat_len32 [OF lt])
  have "Message_deserialize u (MessageHeader_serialize ?h @ ?p)
      = Inr \<lparr>header = ?h, body = HandshakeRequestMsg
               \<lparr>client_version = v, client_nonce = n, security_level = HIGH\<rparr>\<rparr>"
    using req len
    by (simp add: Message_deserialize_def MessageHeader_roundtrip MessageHeader_SIZE_def
          length_MessageHeader_serialize andThen_def Let_def lift_payload_def)
  then show ?thesis using req resp by simp
qed

theorem handshake_without_level_is_HIGH_witness:
  "length ''NetCopy v1.0.0'' + length (replicate 16 (0 :: byte)) + 9 < (2 :: nat) ^ 32
   \<and> HandshakeRequest_deserialize_payload new_HandshakeRequest
         (write_bytes (write_string [] ''NetCopy v1.0.0'') (replicate 16 0))
       = Inr \<lparr>client_version = ''NetCopy v1.0.0'', client_nonce = replicate 16 0,
              security_level = HIGH\<rparr>"
  using handshake_without_level_is_HIGH [of "''NetCopy v1.0.0''" "replicate 16 0"]
  by simp

text \<open>
  C1. The round trip at a FileData message whose \<open>compressed\<close> member is set, decoded into
  a fresh object whose never-assigned member reads false: the message is decoded without
  error, and every member is the sender's except \<open>compressed\<close>, which comes back false.
\<close>

theorem FileData_round_trip_loses_compressed:
  "Message_deserialize \<lparr>uninit_bool = False, uninit_u32 = 0, uninit_u64 = 0\<rparr>
     (Message_serialize
        (new_Message (FileDataMsg \<lparr>offset = 0, data = [0x41, 0x42, 0x43],
                                   is_last_chunk = True, compressed = True\<rparr>)))
   = Inr \<lparr>header = \<lparr>type = FILE_DATA, payload_length = 16, MessageHeader.sequence_number = 0,
                     reserved = 0\<rparr>,
          body = FileDataMsg \<lparr>offset = 0, data = [0x41, 0x42, 0x43],
                              is_last_chunk = True, compressed = False\<rparr>\<rparr>"
proof -
  let ?m = "new_Message (FileDataMsg \<lparr>offset = 0, data = [0x41, 0x42, 0x43],
                                      is_last_chunk = True, compressed = True\<rparr>)"
  have v: "valid_message ?m"
    by (simp add: valid_message_def new_Message_def Message_header_def
          FileData_serialize_payload_def write_bytes_def write_uint32_def write_uint64_def)
  show ?thesis
    unfolding Message_roundtrip [OF v]
    by (simp add: new_Message_def Message_header_def
          FileData_serialize_payload_def write_bytes_def write_uint32_def write_uint64_def)
qed

text \<open>
  C2. The bytes that \<open>FileData_serialize_payload\<close> produces do not depend on the
  \<open>compressed\<close> member: a message with the flag set and the same message with the flag
  clear have the same payload, so no decoder can return the sender's value for both.
\<close>

theorem FileData_payload_omits_compressed:
  "FileData_serialize_payload (m\<lparr>compressed := True\<rparr>)
     = FileData_serialize_payload (m\<lparr>compressed := False\<rparr>)"
  by (simp add: FileData_serialize_payload_def)

section \<open>Verification: the crypto engines\<close>

lemma length_xor_bytes: "length (xor_bytes xs ks) = min (length xs) (length ks)"
  by (simp add: xor_bytes_def)

lemma xor_twice: "(x XOR k) XOR k = (x :: 'a :: len word)"
  by (simp add: xor.assoc)

lemma xor_bytes_involution:
  "length xs \<le> length ks \<Longrightarrow> xor_bytes (xor_bytes xs ks) ks = xs"
proof (induction xs arbitrary: ks)
  case Nil
  then show ?case by (simp add: xor_bytes_def)
next
  case (Cons x xs)
  then obtain k ks' where ks: "ks = k # ks'" by (cases ks) auto
  with Cons have "xor_bytes (xor_bytes xs ks') ks' = xs" by simp
  then show ?case by (simp add: ks xor_bytes_def xor_twice)
qed

lemma length_concat_store32: "length (concat (map (\<lambda>x. store32 (f x)) ws)) = 4 * length ws"
  by (induction ws) (simp_all add: store32_def)

lemma length_quarter_round: "length (quarter_round a b c d w) = length w"
  by (simp add: quarter_round_def Let_def)

lemma length_double_round: "length (double_round w) = length w"
  by (simp add: double_round_def length_quarter_round)

lemma length_double_rounds: "length ((double_round ^^ n) w) = length w"
  by (induction n) (simp_all add: length_double_round)

lemma length_generate_keystream: "length (generate_keystream st) = 4 * length st"
  by (simp add: generate_keystream_def Let_def comp_def length_concat_store32 length_double_rounds)

lemma ChaCha20_encrypt_unfold:
  "d \<noteq> [] \<Longrightarrow> ChaCha20_encrypt st d
     = xor_bytes (take 64 d) (generate_keystream st)
       @ ChaCha20_encrypt (st[12 := st ! 12 + 1]) (drop 64 d)"
  by (subst ChaCha20_encrypt.simps) simp

lemma take_drop_block:
  assumes "length hd' = min n (length d)" and "length tl' = length d - n"
  shows "take n (hd' @ tl') = hd'" and "drop n (hd' @ tl') = tl'"
  using assms by (auto simp: min_def)

lemma ChaCha20_encrypt_involution:
  "length st = 16 \<Longrightarrow>
     length (ChaCha20_encrypt st d) = length d \<and> ChaCha20_encrypt st (ChaCha20_encrypt st d) = d"
proof (induction st d rule: ChaCha20_encrypt.induct)
  case (1 st d)
  show ?case
  proof (cases "d = []")
    case True
    then show ?thesis by (simp add: ChaCha20_encrypt.simps)
  next
    case False
    define ks where "ks = generate_keystream st"
    define st' where "st' = st[12 := st ! 12 + 1]"
    define hd' where "hd' = xor_bytes (take 64 d) ks"
    define tl' where "tl' = ChaCha20_encrypt st' (drop 64 d)"
    have ks: "length ks = 64" using "1.prems" by (simp add: ks_def length_generate_keystream)
    have "length st' = 16" using "1.prems" by (simp add: st'_def)
    then have ih: "length tl' = length d - 64" "ChaCha20_encrypt st' tl' = drop 64 d"
      using "1.IH" [OF False] by (simp_all add: tl'_def st'_def)
    have e: "ChaCha20_encrypt st d = hd' @ tl'"
      using ChaCha20_encrypt_unfold [OF False, of st] by (simp add: hd'_def tl'_def ks_def st'_def)
    have lh: "length hd' = min 64 (length d)"
      by (simp add: hd'_def length_xor_bytes ks)
    have ne: "hd' @ tl' \<noteq> []" using False lh by (cases d) auto
    have t: "take 64 (hd' @ tl') = hd'" and dr: "drop 64 (hd' @ tl') = tl'"
      using take_drop_block [OF lh ih(1)] by simp_all
    have inv: "xor_bytes hd' ks = take 64 d"
      unfolding hd'_def by (rule xor_bytes_involution) (simp add: ks)
    have "ChaCha20_encrypt st (hd' @ tl') = xor_bytes hd' ks @ ChaCha20_encrypt st' tl'"
      using ChaCha20_encrypt_unfold [OF ne, of st] by (simp only: t dr ks_def st'_def)
    then have "ChaCha20_encrypt st (ChaCha20_encrypt st d) = d"
      using e inv ih(2) by simp
    moreover have "length (ChaCha20_encrypt st d) = length d"
      using e lh ih(1) by simp
    ultimately show ?thesis by simp
  qed
qed

lemma length_ChaCha20: "length (ChaCha20 k n c) = 16"
  by (simp add: ChaCha20_def)

lemma length_carry_chain: "length (carry_chain c xs) = length xs"
  by (induction xs arbitrary: c) (simp_all add: Let_def)

lemma Poly1305_block_inv:
  "poly_s (Poly1305_block p chunk) = poly_s p \<and> length (poly_h (Poly1305_block p chunk)) = 5"
  by (simp add: Poly1305_block_def multiply_by_r_def Let_def length_carry_chain)

lemma Poly1305_update_unfold:
  "d \<noteq> [] \<Longrightarrow> Poly1305_update p d = Poly1305_update (Poly1305_block p (take 16 d)) (drop 16 d)"
  by (subst Poly1305_update.simps) simp

lemma Poly1305_update_inv:
  "length (poly_h p) = 5 \<Longrightarrow>
     poly_s (Poly1305_update p d) = poly_s p \<and> length (poly_h (Poly1305_update p d)) = 5"
proof (induction p d rule: Poly1305_update.induct)
  case (1 p d)
  show ?case
  proof (cases "d = []")
    case True
    then show ?thesis using "1.prems" by (simp add: Poly1305_update.simps)
  next
    case False
    have "length (poly_h (Poly1305_block p (take 16 d))) = 5"
      by (simp add: Poly1305_block_inv)
    from "1.IH" [OF False this] show ?thesis
      by (simp add: Poly1305_update_unfold [OF False] Poly1305_block_inv)
  qed
qed

lemma length_Poly1305_finalize:
  "length (poly_s p) = 4 \<Longrightarrow> length (poly_h p) = 5 \<Longrightarrow> length (Poly1305_finalize p) = 16"
  by (simp add: Poly1305_finalize_def Let_def comp_def length_concat_store32 length_carry_chain)

lemma length_compute_tag: "length (compute_tag k n ad ct) = 16"
proof -
  define p0 where "p0 = new_Poly1305 (ChaCha20_encrypt (ChaCha20 k n 0) (replicate 32 0))"
  define p1 where "p1 = Poly1305_update p0 ad"
  define p2 where "p2 = Poly1305_update p1 ct"
  define p3 where "p3 = Poly1305_update p2 (store64 (of_nat (length ad)) @ store64 (of_nat (length ct)))"
  have a: "length (poly_s p0) = 4" "length (poly_h p0) = 5" by (simp_all add: p0_def new_Poly1305_def)
  have b: "length (poly_s p1) = 4" "length (poly_h p1) = 5"
    using Poly1305_update_inv [OF a(2), of ad] a(1) by (simp_all add: p1_def)
  have c: "length (poly_s p2) = 4" "length (poly_h p2) = 5"
    using Poly1305_update_inv [OF b(2), of ct] b(1) by (simp_all add: p2_def)
  have d: "length (poly_s p3) = 4" "length (poly_h p3) = 5"
    using Poly1305_update_inv [OF c(2)] c(1) by (simp_all add: p3_def)
  have "compute_tag k n ad ct = Poly1305_finalize p3"
    by (simp add: compute_tag_def Let_def p3_def p2_def p1_def p0_def)
  then show ?thesis using length_Poly1305_finalize [OF d] by simp
qed

lemma length_ChaCha20Poly1305_encrypt:
  "length (ChaCha20Poly1305_encrypt k d n ad) = length d + 16"
  using ChaCha20_encrypt_involution [OF length_ChaCha20, of k n 1 d]
  by (simp add: ChaCha20Poly1305_encrypt_def Let_def length_compute_tag)

lemma ChaCha20Poly1305_roundtrip:
  "ChaCha20Poly1305_decrypt k (ChaCha20Poly1305_encrypt k d n ad) n
     (drop (length d) (ChaCha20Poly1305_encrypt k d n ad)) ad = Inr d"
proof -
  define ct where "ct = ChaCha20_encrypt (ChaCha20 k n 1) d"
  have l: "length ct = length d" and i: "ChaCha20_encrypt (ChaCha20 k n 1) ct = d"
    using ChaCha20_encrypt_involution [OF length_ChaCha20, of k n 1 d] by (simp_all add: ct_def)
  have e: "ChaCha20Poly1305_encrypt k d n ad = ct @ compute_tag k n ad ct"
    by (simp add: ChaCha20Poly1305_encrypt_def Let_def ct_def)
  show ?thesis
    unfolding e
    by (simp add: ChaCha20Poly1305_decrypt_def Let_def l i length_compute_tag TAG_SIZE_def)
qed

lemma HighSecurityEngine_roundtrip:
  assumes "length nonce = 12"
    and "HighSecurityEngine.cipher e' = HighSecurityEngine.cipher e"
  shows "HighSecurityEngine_decrypt e' (HighSecurityEngine_encrypt e nonce d) = Inr d"
proof -
  define k where "k = HighSecurityEngine.cipher e"
  define c where "c = ChaCha20Poly1305_encrypt k d nonce []"
  have lc: "length c = length d + 16"
    by (simp add: c_def length_ChaCha20Poly1305_encrypt)
  have r: "ChaCha20Poly1305_decrypt k c nonce (drop (length d) c) [] = Inr d"
    unfolding c_def by (rule ChaCha20Poly1305_roundtrip)
  have "HighSecurityEngine_encrypt e nonce d = nonce @ c"
    by (simp add: HighSecurityEngine_encrypt_def c_def k_def)
  then show ?thesis
    using assms lc r
    by (simp add: HighSecurityEngine_decrypt_def Let_def NONCE_SIZE_def TAG_SIZE_def k_def)
qed

lemma length_xor_chunk: "length (xor_chunk k c) = length c"
  by (simp add: xor_chunk_def)

lemma xor_chunk_involution: "xor_chunk k (xor_chunk k c) = c"
  by (rule nth_equalityI) (simp_all add: xor_chunk_def xor_twice)

lemma XorCipher_process_unfold:
  "d \<noteq> [] \<Longrightarrow> XorCipher_process c d =
     (if drop CHUNK_SIZE d \<noteq> []
      then (xor_chunk (current_key c) (take CHUNK_SIZE d)
              @ fst (XorCipher_process (update_key c) (drop CHUNK_SIZE d)),
            snd (XorCipher_process (update_key c) (drop CHUNK_SIZE d)))
      else (xor_chunk (current_key c) (take CHUNK_SIZE d), c))"
  by (subst XorCipher_process.simps) (simp add: Let_def split_beta)

lemma XorCipher_process_involution:
  "length (fst (XorCipher_process c d)) = length d
   \<and> XorCipher_process c (fst (XorCipher_process c d)) = (d, snd (XorCipher_process c d))"
proof (induction c d rule: XorCipher_process.induct)
  case (1 c d)
  show ?case
  proof (cases "d = []")
    case True
    then show ?thesis by (simp add: XorCipher_process.simps)
  next
    case False
    define hd' where "hd' = xor_chunk (current_key c) (take CHUNK_SIZE d)"
    have lh: "length hd' = min CHUNK_SIZE (length d)"
      by (simp add: hd'_def length_xor_chunk min.commute)
    have inv: "xor_chunk (current_key c) hd' = take CHUNK_SIZE d"
      by (simp add: hd'_def xor_chunk_involution)
    show ?thesis
    proof (cases "drop CHUNK_SIZE d = []")
      case True
      then have e: "XorCipher_process c d = (hd', c)"
        using XorCipher_process_unfold [OF False, of c] by (simp add: hd'_def)
      have l: "length d \<le> CHUNK_SIZE" using True by simp
      have ne: "hd' \<noteq> []" using False lh l by (cases d) (auto simp: CHUNK_SIZE_def)
      have "drop CHUNK_SIZE hd' = []" "take CHUNK_SIZE hd' = hd'" using lh l by simp_all
      then have "XorCipher_process c hd' = (xor_chunk (current_key c) hd', c)"
        using XorCipher_process_unfold [OF ne, of c] by simp
      then show ?thesis using e inv lh l by simp
    next
      case nonempty: False
      define r where "r = XorCipher_process (update_key c) (drop CHUNK_SIZE d)"
      have ih: "length (fst r) = length d - CHUNK_SIZE"
               "XorCipher_process (update_key c) (fst r) = (drop CHUNK_SIZE d, snd r)"
        using "1.IH" [OF False refl refl nonempty] by (simp_all add: r_def)
      have e: "XorCipher_process c d = (hd' @ fst r, snd r)"
        using XorCipher_process_unfold [OF False, of c] nonempty by (simp add: hd'_def r_def)
      have ne: "hd' @ fst r \<noteq> []" using False lh by (cases d) (auto simp: CHUNK_SIZE_def)
      have t: "take CHUNK_SIZE (hd' @ fst r) = hd'" and dr: "drop CHUNK_SIZE (hd' @ fst r) = fst r"
        using take_drop_block [OF lh ih(1)] by simp_all
      have fr: "fst r \<noteq> []" using ih(1) nonempty by (cases "fst r") auto
      have "XorCipher_process c (hd' @ fst r) = (take CHUNK_SIZE d @ drop CHUNK_SIZE d, snd r)"
        using XorCipher_process_unfold [OF ne, of c] fr unfolding t dr by (simp add: inv ih(2))
      then show ?thesis using e lh ih(1) by simp
    qed
  qed
qed

lemma XorCipher_reset_base:
  "base_key c' = base_key c \<Longrightarrow> XorCipher_reset c' = XorCipher_reset c"
  by (simp add: XorCipher_reset_def)

lemma FastSecurityEngine_roundtrip:
  assumes "base_key (FastSecurityEngine.cipher e') = base_key (FastSecurityEngine.cipher e)"
  shows "fst (FastSecurityEngine_decrypt e' (fst (FastSecurityEngine_encrypt e d))) = d"
proof -
  define c where "c = XorCipher_reset (FastSecurityEngine.cipher e)"
  have c': "XorCipher_reset (FastSecurityEngine.cipher e') = c"
    using XorCipher_reset_base [OF assms] by (simp add: c_def)
  show ?thesis
    using XorCipher_process_involution [of c d]
    by (simp add: FastSecurityEngine_decrypt_def FastSecurityEngine_encrypt_def c' c_def [symmetric]
          split_beta)
qed

lemma length_encrypt_block: "length (encrypt_block pf c cb) = 16"
  by (simp add: encrypt_block_def encrypt_block_aes_ni_def encrypt_block_software_def
        add_round_key_def storeu_si128_def Let_def)

lemma AesCtr_process_loop_unfold:
  "d \<noteq> [] \<Longrightarrow> AesCtr_process_loop pf c cb n d =
     xor_bytes (take BLOCK_SIZE d)
        (encrypt_block pf c (take 8 cb @ map (\<lambda>i. ucast (drop_bit (i * 8) n AND 0xFF)) [0..<8]))
     @ AesCtr_process_loop pf c (take 8 cb @ map (\<lambda>i. ucast (drop_bit (i * 8) n AND 0xFF)) [0..<8])
         (n + 1) (drop BLOCK_SIZE d)"
  by (subst AesCtr_process_loop.simps) (simp add: Let_def)

lemma AesCtr_process_loop_involution:
  "length (AesCtr_process_loop pf c cb n d) = length d
   \<and> AesCtr_process_loop pf c cb n (AesCtr_process_loop pf c cb n d) = d"
proof (induction pf c cb n d rule: AesCtr_process_loop.induct)
  case (1 pf c cb n d)
  show ?case
  proof (cases "d = []")
    case True
    then show ?thesis by (simp add: AesCtr_process_loop.simps)
  next
    case False
    define cb' where "cb' = take 8 cb @ map (\<lambda>i. ucast (drop_bit (i * 8) n AND 0xFF) :: byte) [0..<8]"
    define ks where "ks = encrypt_block pf c cb'"
    define hd' where "hd' = xor_bytes (take BLOCK_SIZE d) ks"
    define tl' where "tl' = AesCtr_process_loop pf c cb' (n + 1) (drop BLOCK_SIZE d)"
    have ks: "length ks = 16" by (simp add: ks_def length_encrypt_block)
    have ih: "length tl' = length d - BLOCK_SIZE"
             "AesCtr_process_loop pf c cb' (n + 1) tl' = drop BLOCK_SIZE d"
      using "1.IH" [OF False refl refl] by (simp_all add: tl'_def cb'_def)
    have e: "AesCtr_process_loop pf c cb n d = hd' @ tl'"
      using AesCtr_process_loop_unfold [OF False, of pf c cb n]
      by (simp add: hd'_def tl'_def ks_def cb'_def)
    have lh: "length hd' = min BLOCK_SIZE (length d)"
      by (simp add: hd'_def length_xor_bytes ks BLOCK_SIZE_def)
    have ne: "hd' @ tl' \<noteq> []" using False lh by (cases d) (auto simp: BLOCK_SIZE_def)
    have t: "take BLOCK_SIZE (hd' @ tl') = hd'" and dr: "drop BLOCK_SIZE (hd' @ tl') = tl'"
      using take_drop_block [OF lh ih(1)] by simp_all
    have inv: "xor_bytes hd' ks = take BLOCK_SIZE d"
      unfolding hd'_def by (rule xor_bytes_involution) (simp add: ks BLOCK_SIZE_def)
    have "AesCtr_process_loop pf c cb n (hd' @ tl')
            = xor_bytes hd' ks @ AesCtr_process_loop pf c cb' (n + 1) tl'"
      using AesCtr_process_loop_unfold [OF ne, of pf c cb n] by (simp only: t dr ks_def cb'_def)
    then have "AesCtr_process_loop pf c cb n (AesCtr_process_loop pf c cb n d) = d"
      using e inv ih(2) by simp
    moreover have "length (AesCtr_process_loop pf c cb n d) = length d"
      using e lh ih(1) by simp
    ultimately show ?thesis by simp
  qed
qed

lemma AesCtr_process_involution:
  "length (AesCtr_process pf c d iv) = length d
   \<and> AesCtr_process pf c (AesCtr_process pf c d iv) iv = d"
proof (cases "d = []")
  case True
  then show ?thesis by (simp add: AesCtr_process_def)
next
  case False
  have l: "length (AesCtr_process_loop pf c iv 0 d) = length d"
    using AesCtr_process_loop_involution by blast
  then have "AesCtr_process_loop pf c iv 0 d \<noteq> []" using False by auto
  then show ?thesis
    using False l AesCtr_process_loop_involution [of pf c iv 0 d]
    by (simp add: AesCtr_process_def)
qed

lemma AesSecurityEngine_roundtrip:
  assumes "length iv = 16"
    and "AesSecurityEngine.cipher e' = AesSecurityEngine.cipher e"
  shows "AesSecurityEngine_decrypt pf e' (AesSecurityEngine_encrypt pf e iv d) = Inr d"
  using assms AesCtr_process_involution [of pf "AesSecurityEngine.cipher e" d iv]
  by (simp add: AesSecurityEngine_decrypt_def AesSecurityEngine_encrypt_def Let_def
        AesCtr_IV_SIZE_def)

lemma length_simple_tag: "length (simple_tag k iv txt) = 16"
  by (simp add: simple_tag_def GCM_TAG_SIZE_def)

lemma length_encrypt_cpu: "length (encrypt_cpu pf c d iv ad) = length d + 16"
  using AesCtr_process_involution [of pf "fallback_cipher c" d "to_aes_iv iv"]
  by (simp add: encrypt_cpu_def Let_def length_simple_tag)

lemma GpuSecurityEngine_never_roundtrips:
  assumes "length iv = 12"
  shows "GpuSecurityEngine_decrypt pf e' (GpuSecurityEngine_encrypt pf e iv d) \<noteq> Inr d"
proof -
  define ct where "ct = AesCtr_process pf (fallback_cipher (GpuSecurityEngine.cipher e)) d (to_aes_iv iv)"
  define tg where "tg = simple_tag (Aes256GcmGpu.key (GpuSecurityEngine.cipher e)) iv ct"
  have lct: "length ct = length d"
    using AesCtr_process_involution [of pf _ d] by (simp add: ct_def)
  have ltg: "length tg = 16" by (simp add: tg_def length_simple_tag)
  have enc: "GpuSecurityEngine_encrypt pf e iv d = iv @ ct @ tg"
    by (simp add: GpuSecurityEngine_encrypt_def encrypt_cpu_def Let_def ct_def tg_def)
  have dec: "GpuSecurityEngine_decrypt pf e' (iv @ ct @ tg)
              = decrypt_cpu pf (GpuSecurityEngine.cipher e') ct iv tg []"
    using assms lct ltg
    by (simp add: GpuSecurityEngine_decrypt_def Let_def GCM_IV_SIZE_def GCM_TAG_SIZE_def)
  have "decrypt_cpu pf (GpuSecurityEngine.cipher e') ct iv tg [] \<noteq> Inr d"
  proof (cases "length ct < 16")
    case True
    then show ?thesis by (simp add: decrypt_cpu_def GCM_TAG_SIZE_def)
  next
    case False
    have "length (AesCtr_process pf (fallback_cipher (GpuSecurityEngine.cipher e'))
                    (take (length ct - 16) ct) (to_aes_iv iv)) \<noteq> length d"
      using AesCtr_process_involution [of pf _ "take (length ct - 16) ct"] False lct by simp
    then show ?thesis using False
      by (auto simp: decrypt_cpu_def GCM_TAG_SIZE_def Let_def)
  qed
  then show ?thesis by (simp add: enc dec)
qed

lemma GpuSecurityEngine_empty:
  assumes "length iv = 12"
  shows "GpuSecurityEngine_decrypt pf e' (GpuSecurityEngine_encrypt pf e iv [])
           = Inl (runtime_error ''Ciphertext too short for authentication tag'')"
proof -
  define tg where "tg = simple_tag (Aes256GcmGpu.key (GpuSecurityEngine.cipher e)) iv []"
  have ltg: "length tg = 16" by (simp add: tg_def length_simple_tag)
  have enc: "GpuSecurityEngine_encrypt pf e iv [] = iv @ tg"
    by (simp add: GpuSecurityEngine_encrypt_def encrypt_cpu_def Let_def AesCtr_process_def tg_def)
  show ?thesis
    using assms ltg
    by (simp add: enc GpuSecurityEngine_decrypt_def decrypt_cpu_def Let_def GCM_IV_SIZE_def
          GCM_TAG_SIZE_def)
qed

text \<open>
  C4. The AES-256-GCM engine cannot decrypt what it encrypts: \<open>GpuSecurityEngine_decrypt\<close>
  strips the tag and hands the bare ciphertext to \<open>decrypt_cpu\<close>, which strips sixteen bytes
  again. For the empty byte sequence the second strip throws; for a serialized FileAck
  (as for every input, by \<open>GpuSecurityEngine_never_roundtrips\<close>) the result is not the
  plaintext. The HIGH, FAST and AES engines do return the plaintext
  (\<open>HighSecurityEngine_roundtrip\<close>, \<open>FastSecurityEngine_roundtrip\<close>,
  \<open>AesSecurityEngine_roundtrip\<close>).
\<close>

theorem GCM_engine_rejects_own_ciphertext:
  "GpuSecurityEngine_decrypt software_platform example_gcm_engine
     (GpuSecurityEngine_encrypt software_platform example_gcm_engine (replicate 12 0) [])
     = Inl (runtime_error ''Ciphertext too short for authentication tag'')
   \<and> GpuSecurityEngine_decrypt software_platform example_gcm_engine
       (GpuSecurityEngine_encrypt software_platform example_gcm_engine (replicate 12 0)
          (Message_serialize example_ack))
     \<noteq> Inr (Message_serialize example_ack)"
  using GpuSecurityEngine_empty [of "replicate 12 0" software_platform example_gcm_engine example_gcm_engine]
    GpuSecurityEngine_never_roundtrips [of "replicate 12 0" software_platform example_gcm_engine
      example_gcm_engine "Message_serialize example_ack"]
  by simp

section \<open>Verification: the message loop\<close>

lemma load32_store32: "load32 (store32 v @ r) 0 = v"
  using le32_roundtrip [of v] by (simp add: load32_def store32_def)

lemma length_store32: "length (store32 v) = 4"
  by (simp add: store32_def)

lemma receive_loop_enough:
  assumes "n \<le> length (inbox sock)"
  shows "receive_loop sock n acc = (Inr (acc @ take n (inbox sock)), sock\<lparr>inbox := drop n (inbox sock)\<rparr>)"
proof (cases "n = 0")
  case True
  then show ?thesis by (simp add: receive_loop.simps)
next
  case False
  then have ne: "take n (inbox sock) \<noteq> []" using assms by (cases "inbox sock") auto
  have l: "length (take n (inbox sock)) = n" using assms by simp
  show ?thesis
    using False ne assms
    by (subst receive_loop.simps) (simp add: Socket_receive_def l receive_loop.simps)
qed

lemma receive_frame:
  assumes i: "inbox (client_socket st) = frame d @ rest"
    and l: "length d < 2 ^ 32"
    and c: "\<not> (handshake_completed st \<and> holds_cipher st)"
  shows "receive_message w st
           = (Message_deserialize (indeterminate w) d,
              st\<lparr>client_socket := (client_socket st)\<lparr>inbox := rest\<rparr>\<rparr>)"
proof -
  let ?sock = "client_socket st"
  let ?lenb = "store32 (of_nat (length d) :: 32 word)"
  have t4: "take 4 (inbox ?sock) = ?lenb"
    by (simp add: i frame_def length_store32)
  have r4: "Socket_receive ?sock 4 = Inr (?lenb, ?sock\<lparr>inbox := d @ rest\<rparr>)"
    by (simp add: Socket_receive_def t4) (simp add: i frame_def length_store32 store32_def)
  have len: "unat (load32 (?lenb @ drop (length ?lenb) (store32 (uninit_u32 (indeterminate w)))) 0)
               = length d"
    using l by (simp add: load32_store32 unat_of_nat)
  have rl: "receive_loop (?sock\<lparr>inbox := d @ rest\<rparr>) (length d) []
              = (Inr d, ?sock\<lparr>inbox := rest\<rparr>)"
    using receive_loop_enough [of "length d" "?sock\<lparr>inbox := d @ rest\<rparr>" "[]"] by simp
  show ?thesis
    using c
    by (auto simp: receive_message_def r4 len rl Let_def andThen_def holds_cipher_def
          simp del: One_nat_def)
qed

lemma Message_serialize_nonempty: "Message_serialize m \<noteq> []"
  by (simp add: Message_serialize_def Let_def MessageHeader_serialize_def write_uint32_def)

lemma send_message_plain:
  assumes "\<not> holds_cipher st" and "writable (client_socket st)"
  shows "send_message w st m
           = (None, w, st\<lparr>client_socket :=
                (client_socket st)\<lparr>outbox := outbox (client_socket st) @ frame (Message_serialize m)\<rparr>\<rparr>)"
  using assms
  by (simp add: send_message_def Let_def Socket_send_def frame_def holds_cipher_def
        Message_serialize_nonempty)

lemma send_message_writable:
  assumes "writable (client_socket st)"
  shows "fst (send_message w st m) = None"
    and "disk (fst (snd (send_message w st m))) = disk w"
    and "current_file_path (snd (snd (send_message w st m))) = current_file_path st"
  using assms
  by (auto simp: send_message_def encrypt_message_def Socket_send_def generate_random_bytes_def
      Let_def split: option.splits prod.splits)

lemma handle_file_data_no_transfer:
  assumes "current_file_path st = []"
  shows "handle_file_data w st dat
           = send_message w st
               (new_Message (FileAckMsg \<lparr>bytes_received = uninit_u64 (indeterminate w),
                                        success = False,
                                        error_message = ''No file transfer in progress''\<rparr>))"
  using assms
  by (simp add: handle_file_data_def file_data_try_def new_FileAck_def Let_def c_str_def)

text \<open>
  C7, as the code has it. A FileData that arrives while no file path is set is not fatal:
  the handler answers with a FileAck that carries \<open>success = false\<close> and the message
  \<^verbatim>\<open>No file transfer in progress\<close>, no exception leaves \<open>handle_file_data\<close>, the disk is
  untouched, and the message loop goes on with the next frame.
\<close>

theorem FileData_without_request_is_answered:
  assumes "current_file_path st = []" and "writable (client_socket st)"
  shows "handle_file_data w st dat
           = send_message w st
               (new_Message (FileAckMsg \<lparr>bytes_received = uninit_u64 (indeterminate w),
                                        success = False,
                                        error_message = ''No file transfer in progress''\<rparr>))
       \<and> fst (handle_file_data w st dat) = None
       \<and> disk (fst (snd (handle_file_data w st dat))) = disk w
       \<and> (receive_message w st0 = (Inr m, st) \<and> get_type m = FILE_DATA \<and> body m = FileDataMsg dat
            \<longrightarrow> message_loop w st0
                  = message_loop (fst (snd (handle_file_data w st dat)))
                      (snd (snd (handle_file_data w st dat))))"
proof -
  let ?r = "handle_file_data w st dat"
  have a: "?r = send_message w st
               (new_Message (FileAckMsg \<lparr>bytes_received = uninit_u64 (indeterminate w),
                                        success = False,
                                        error_message = ''No file transfer in progress''\<rparr>))"
    by (rule handle_file_data_no_transfer [OF assms(1)])
  have b: "fst ?r = None" and c: "disk (fst (snd ?r)) = disk w"
    unfolding a using send_message_writable [OF assms(2)] by simp_all
  have d: "message_loop w st0 = message_loop (fst (snd ?r)) (snd (snd ?r))"
    if "receive_message w st0 = (Inr m, st)" "get_type m = FILE_DATA" "body m = FileDataMsg dat"
  proof -
    have "dispatch w st m = ?r"
      using that by (simp add: dispatch_def FILE_REQUEST_def FILE_DATA_def)
    then have "dispatch w st m = (None, fst (snd ?r), snd (snd ?r))"
      using b by (metis prod.collapse)
    then show ?thesis
      using that(1) by (subst message_loop.simps) (simp add: case_prod_beta)
  qed
  show ?thesis using a b c d by blast
qed

lemma example_data_valid: "valid_message example_data"
  by (simp add: valid_message_def example_data_def example_chunk_def new_Message_def Message_header_def
        FileData_serialize_payload_def write_bytes_def write_uint32_def write_uint64_def)

lemma length_Message_serialize:
  "length (Message_serialize m) = 16 + length (serialize_payload (body m))"
  by (simp add: Message_serialize_def Let_def length_MessageHeader_serialize)

lemma valid_message_length: "valid_message m \<Longrightarrow> length (Message_serialize m) < 2 ^ 32 + 16"
  by (simp add: valid_message_def length_Message_serialize)

lemma example_data_length: "length (Message_serialize example_data) = 32"
  by (simp add: length_Message_serialize example_data_def example_chunk_def new_Message_def
        FileData_serialize_payload_def write_bytes_def write_uint32_def write_uint64_def)

lemma example_handler_facts:
  "current_file_path (example_handler i out) = []"
  "writable (client_socket (example_handler i out))"
  "\<not> holds_cipher (example_handler i out)"
  "inbox (client_socket (example_handler i out)) = i"
  "outbox (client_socket (example_handler i out)) = out"
  by (simp_all add: example_handler_def new_ConnectionHandler_def holds_cipher_def)

lemma example_handler_inbox:
  "(example_handler i out)\<lparr>client_socket := (client_socket (example_handler i out))\<lparr>inbox := j\<rparr>\<rparr>
     = example_handler j out"
  by (simp add: example_handler_def new_ConnectionHandler_def)

lemma example_handler_outbox:
  "(example_handler i out)\<lparr>client_socket := (client_socket (example_handler i out))\<lparr>outbox := k\<rparr>\<rparr>
     = example_handler i k"
  by (simp add: example_handler_def new_ConnectionHandler_def)

lemma example_receive_data:
  "receive_message example_world (example_handler (frame (Message_serialize example_data) @ rest) out)
     = (Inr (example_data\<lparr>header := (header example_data)\<lparr>payload_length := 16\<rparr>\<rparr>),
        example_handler rest out)"
proof -
  let ?st = "example_handler (frame (Message_serialize example_data) @ rest) out"
  have r: "receive_message example_world ?st
           = (Message_deserialize (indeterminate example_world) (Message_serialize example_data),
              ?st\<lparr>client_socket := (client_socket ?st)\<lparr>inbox := rest\<rparr>\<rparr>)"
    by (rule receive_frame)
       (simp_all add: example_handler_facts example_data_length)
  have m: "Message_deserialize (indeterminate example_world) (Message_serialize example_data)
           = Inr (example_data\<lparr>header := (header example_data)\<lparr>payload_length := 16\<rparr>\<rparr>)"
    unfolding Message_roundtrip [OF example_data_valid]
    by (simp add: example_data_def example_chunk_def new_Message_def example_world_def
          FileData_serialize_payload_def write_bytes_def write_uint32_def write_uint64_def)
  show ?thesis unfolding r m example_handler_inbox ..
qed

lemma example_received:
  "get_type (example_data\<lparr>header := (header example_data)\<lparr>payload_length := 16\<rparr>\<rparr>) = FILE_DATA"
  "body (example_data\<lparr>header := (header example_data)\<lparr>payload_length := 16\<rparr>\<rparr>)
     = FileDataMsg example_chunk"
  by (simp_all add: example_data_def new_Message_def Message_header_def get_type_def)

lemma example_send:
  "send_message example_world (example_handler i out) m
     = (None, example_world, example_handler i (out @ frame (Message_serialize m)))"
  unfolding send_message_plain [OF example_handler_facts(3) example_handler_facts(2)]
    example_handler_facts example_handler_outbox ..

lemma example_no_transfer:
  "handle_file_data example_world (example_handler i out) dat
     = (None, example_world, example_handler i (out @ frame (Message_serialize no_transfer_ack)))"
  unfolding handle_file_data_no_transfer [OF example_handler_facts(1)] example_send
  by (simp add: no_transfer_ack_def example_world_def)

lemma example_peer_closed:
  "message_loop example_world (example_handler [] out)
     = (NetworkException ''Connection closed by peer'', example_world, example_handler [] out)"
  by (subst message_loop.simps)
     (simp add: receive_message_def Socket_receive_def example_handler_facts)

theorem FileData_without_request_is_answered_witness:
  "current_file_path (example_handler [] []) = []
   \<and> writable (client_socket (example_handler [] []))
   \<and> receive_message example_world (example_handler (frame (Message_serialize example_data)) [])
       = (Inr (example_data\<lparr>header := (header example_data)\<lparr>payload_length := 16\<rparr>\<rparr>),
          example_handler [] [])
   \<and> get_type (example_data\<lparr>header := (header example_data)\<lparr>payload_length := 16\<rparr>\<rparr>)
       = FILE_DATA
   \<and> body (example_data\<lparr>header := (header example_data)\<lparr>payload_length := 16\<rparr>\<rparr>)
       = FileDataMsg example_chunk
   \<and> fst (handle_file_data example_world (example_handler [] []) example_chunk) = None
   \<and> disk (fst (snd (handle_file_data example_world (example_handler [] []) example_chunk)))
       = disk example_world
   \<and> message_loop example_world (example_handler (frame (Message_serialize example_data)) [])
       = message_loop
           (fst (snd (handle_file_data example_world (example_handler [] []) example_chunk)))
           (snd (snd (handle_file_data example_world (example_handler [] []) example_chunk)))"
  using FileData_without_request_is_answered
          [of "example_handler [] []" example_world example_chunk
              "example_handler (frame (Message_serialize example_data)) []"
              "example_data\<lparr>header := (header example_data)\<lparr>payload_length := 16\<rparr>\<rparr>"]
        example_receive_data [of "[]" "[]", simplified] example_received
        example_handler_facts(1,2) [of "[]" "[]"]
  by blast

text \<open>
  A client that sends two FileData frames and no FileRequest, then closes: the server
  answers each frame with the failure FileAck and goes on reading; what ends the
  connection is the peer closing it.
\<close>

theorem FileData_before_FileRequest_is_not_fatal:
  "message_loop example_world
       (example_handler (frame (Message_serialize example_data)
                           @ frame (Message_serialize example_data)) [])
     = (NetworkException ''Connection closed by peer'', example_world,
        example_handler []
          (frame (Message_serialize no_transfer_ack) @ frame (Message_serialize no_transfer_ack)))"
proof -
  have step: "message_loop example_world
                  (example_handler (frame (Message_serialize example_data) @ rest) out)
              = message_loop example_world
                  (example_handler rest (out @ frame (Message_serialize no_transfer_ack)))"
    for rest out
    by (subst message_loop.simps)
       (simp add: example_receive_data dispatch_def example_received example_no_transfer
          FILE_REQUEST_def FILE_DATA_def)
  show ?thesis
    using step [of "frame (Message_serialize example_data)" "[]"]
          step [of "[]" "frame (Message_serialize no_transfer_ack)"]
    by (simp add: example_peer_closed)
qed

section \<open>Verification: encryption of frames\<close>




lemma length_frame: "length (frame d) = 4 + length d"
  by (simp add: frame_def length_store32)


















section \<open>Verification: directories and markers\<close>
























section \<open>Verification: resume offsets\<close>

lemma get_partial_file_size_value:
  assumes "lookup fs x \<noteq> Some Dir"
  shows "get_partial_file_size fs x
           = Inr (case lookup fs x of Some (File d) \<Rightarrow> of_nat (length d) | _ \<Rightarrow> 0)"
proof (cases "lookup fs x")
  case None
  then show ?thesis by (simp add: get_partial_file_size_def exists_def)
next
  case (Some n)
  then obtain d where "n = File d" using assms by (cases n) auto
  then show ?thesis
    using Some by (simp add: get_partial_file_size_def exists_def FileManager_file_size_def)
qed

text \<open>
  C5. A FileRequest that passes \<open>is_path_allowed\<close>, names an absolute path and resolves to
  a path that is not a directory is answered with success; the response carries the size
  of the file under the resolved path (0 when there is none) when the request's
  \<open>resume_offset\<close> is not 0, and 0 when it is 0, whether the file exists or not.
\<close>

theorem resume_offset_is_the_size_on_disk:
  assumes "is_path_allowed w st (destination_path req)"
    and "is_absolute_path (convert_to_native_path (destination_path req))"
    and "R = file_request_try w st (new_FileResponse (indeterminate w)) req"
    and "lookup (disk w) (current_file_path (snd (snd (snd R)))) \<noteq> Some Dir"
  shows "fst R = None
       \<and> FileResponse.success (fst (snd R))
       \<and> FileResponse.resume_offset (fst (snd R))
           = (if FileRequest.resume_offset req = 0 then 0
              else case lookup (disk w) (current_file_path (snd (snd (snd R)))) of
                     Some (File d) \<Rightarrow> of_nat (length d)
                   | _ \<Rightarrow> 0)
       \<and> handle_file_request w st req
           = send_message (fst (snd (snd R))) (snd (snd (snd R)))
               (new_Message (FileResponseMsg (fst (snd R))))"
proof -
  let ?native = "normalize_path (convert_to_native_path (destination_path req))"
  let ?resolved =
     "if last ?native = CHR ''/'' \<or> last ?native = CHR 0x5C \<or> is_directory (disk w) ?native
      then join_path ?native (get_filename (source_path req)) else ?native"
  have rp: "resolve_path (destination_path req) = Inr ?native"
    using assms(2) by (simp add: resolve_path_def)
  let ?probed =
     "if FileRequest.resume_offset req > 0 then get_partial_file_size (disk w) ?resolved
      else Inr 0"
  have R: "R = (case ?probed of
                  Inl x \<Rightarrow> (Some x, new_FileResponse (indeterminate w), w,
                            st\<lparr>current_file_path := ?resolved\<rparr>)
                | Inr current_size \<Rightarrow>
                    (None,
                     (new_FileResponse (indeterminate w))
                       \<lparr>FileResponse.resume_offset := current_size,
                        FileResponse.success := True, file_size := 0\<rparr>,
                     (if get_directory ?resolved \<noteq> [] \<and> \<not> exists (disk w) (get_directory ?resolved)
                      then w\<lparr>disk := snd (create_directories (disk w) (get_directory ?resolved))\<rparr>
                      else w),
                     st\<lparr>current_file_path := ?resolved\<rparr>))"
    unfolding assms(3) file_request_try_def
    using assms(1) by (simp add: rp Let_def split del: if_split)
  define resolved where "resolved = ?resolved"
  note R = R [folded resolved_def]
  have c: "current_file_path (snd (snd (snd R))) = resolved"
    unfolding R by (simp split: sum.splits)
  have nd: "lookup (disk w) resolved \<noteq> Some Dir" using assms(4) unfolding c .
  have g: "get_partial_file_size (disk w) resolved
             = Inr (case lookup (disk w) resolved of
                      Some (File d) \<Rightarrow> of_nat (length d) | _ \<Rightarrow> 0)"
    by (rule get_partial_file_size_value [OF nd])
  have a: "fst R = None" unfolding R g by simp
  have b: "FileResponse.success (fst (snd R))" unfolding R g by simp
  have d: "FileResponse.resume_offset (fst (snd R))
           = (if FileRequest.resume_offset req = 0 then 0
              else case lookup (disk w) (current_file_path (snd (snd (snd R)))) of
                     Some (File d) \<Rightarrow> of_nat (length d)
                   | _ \<Rightarrow> 0)"
    unfolding c unfolding R g by (simp add: word_greater_zero_iff)
  have e: "handle_file_request w st req
           = send_message (fst (snd (snd R))) (snd (snd (snd R)))
               (new_Message (FileResponseMsg (fst (snd R))))"
    using a unfolding handle_file_request_def Let_def assms(3) [symmetric]
    by (simp add: case_prod_beta)
  show ?thesis using a b d e by blast
qed

theorem resume_offset_is_the_size_on_disk_witness:
  "is_path_allowed blocked_world (example_handler [] []) (destination_path example_resume)
   \<and> is_absolute_path (convert_to_native_path (destination_path example_resume))
   \<and> lookup (disk blocked_world)
         (current_file_path (snd (snd (snd (file_request_try blocked_world (example_handler [] [])
            (new_FileResponse (indeterminate blocked_world)) example_resume)))))
       = Some (File [0x41])
   \<and> FileRequest.resume_offset example_resume \<noteq> 0
   \<and> FileResponse.success (fst (snd (file_request_try blocked_world (example_handler [] [])
            (new_FileResponse (indeterminate blocked_world)) example_resume)))
   \<and> FileResponse.resume_offset (fst (snd (file_request_try blocked_world (example_handler [] [])
            (new_FileResponse (indeterminate blocked_world)) example_resume))) = 1"
proof -
  have h1: "is_path_allowed blocked_world (example_handler [] []) (destination_path example_resume)"
    by code_simp
  have h2: "is_absolute_path (convert_to_native_path (destination_path example_resume))"
    by code_simp
  have h3: "lookup (disk blocked_world)
         (current_file_path (snd (snd (snd (file_request_try blocked_world (example_handler [] [])
            (new_FileResponse (indeterminate blocked_world)) example_resume)))))
       = Some (File [0x41])"
    by code_simp
  have h4: "FileRequest.resume_offset example_resume \<noteq> 0"
    by (simp add: example_resume_def)
  show ?thesis
    using resume_offset_is_the_size_on_disk [OF h1 h2 refl] h1 h2 h3 h4
    by simp
qed

section \<open>Verification: writing a chunk\<close>























section \<open>Verification: path authorisation\<close>

















end
